theory Spec2Isabelle
  imports Complex_Main "HOL-Library.Word" "HOL-Library.Log_Nat"
begin

unbundle bit_operations_syntax

section \<open>JavaScript integers and strings used by \<open>hashCode\<close>\<close>

text \<open>
  The 32-bit operators of JavaScript convert their operands with ToInt32: the value is
  taken modulo \<open>2^32\<close> and read as a two's complement number. Between two such
  operators the arithmetic of \<open>hashCode\<close> is exact, because every intermediate result is
  an integer far below \<open>2^53\<close>; so the numbers are modelled as \<open>int\<close> and the
  conversion is written out.
\<close>

definition ToInt32 :: "int \<Rightarrow> int" where
  "ToInt32 x = (x + 2 ^ 31) mod 2 ^ 32 - 2 ^ 31"

text \<open>\<open>a << n\<close>: both operands converted, the shift count taken modulo 32.\<close>

definition js_shl :: "int \<Rightarrow> nat \<Rightarrow> int" where
  "js_shl a n = ToInt32 (ToInt32 a * 2 ^ (n mod 32))"

text \<open>\<open>a & b\<close>.\<close>

definition js_and :: "int \<Rightarrow> int \<Rightarrow> int" where
  "js_and a b = ToInt32 a AND ToInt32 b"

text \<open>A JavaScript string is a sequence of UTF-16 code units.\<close>

type_synonym js_string = "16 word list"

definition charCodeAt :: "js_string \<Rightarrow> nat \<Rightarrow> int" where
  "charCodeAt str i = uint (str ! i)"

text \<open>
  \<open>Number.prototype.toString\<close> on an integer: its decimal digits, with a minus sign.
  \<open>digits\<close> is only applied to numbers that are not negative.
\<close>

function digits :: "int \<Rightarrow> string" where
  "digits n =
     (if n < 10 then [''0123456789'' ! nat n]
      else digits (n div 10) @ [''0123456789'' ! nat (n mod 10)])"
  by pat_completeness auto
termination
  by (relation "measure nat") simp_all

definition int_toString :: "int \<Rightarrow> string" where
  "int_toString n = (if n < 0 then CHR ''-'' # digits (- n) else digits n)"

section \<open>\<open>hashCode\<close>\<close>

text \<open>
  The \<open>for\<close> loop of \<open>hashCode\<close>, with its index \<open>i\<close> and the running \<open>hash\<close>:
  \<^verbatim>\<open>const char = str.charCodeAt(i); hash = (hash << 5) - hash + char; hash = hash & hash;\<close>
\<close>

function hashCode_loop :: "js_string \<Rightarrow> nat \<Rightarrow> int \<Rightarrow> int" where
  "hashCode_loop str i hash =
     (if i < length str then
        (let char = charCodeAt str i;
             hash = js_shl hash 5 - hash + char;
             hash = js_and hash hash
         in hashCode_loop str (i + 1) hash)
      else hash)"
  by pat_completeness auto
termination
  by (relation "measure (\<lambda>(str, i, hash). length str - i)") simp_all

definition hashCode :: "js_string \<Rightarrow> string" where
  "hashCode str = (if length str = 0 then [] else int_toString (hashCode_loop str 0 0))"

text \<open>
  The hash as the specification words it: \<open>hash = hash * 31 + charCode\<close>, wrapped to a
  signed 32-bit integer at each step.
\<close>

definition wrap32 :: "int \<Rightarrow> int" where
  "wrap32 x = sint (word_of_int x :: 32 word)"

definition rolling_hash :: "int list \<Rightarrow> int" where
  "rolling_hash cs = foldl (\<lambda>hash charCode. wrap32 (hash * 31 + charCode)) 0 cs"

section \<open>JavaScript numbers\<close>

text \<open>
  A finite Number is modelled by its exact value, a rational. \<open>to_double\<close> rounds a
  rational to the nearest IEEE 754 double (53 significant bits, ties to even, gradual
  underflow below \<open>2^-1022\<close>); it gives the value of a decimal literal of the source and
  the result of a division. The exponent is not bounded from above: the only division of
  the program divides by 1000 and cannot overflow.
\<close>

definition pow2 :: "int \<Rightarrow> rat" where
  "pow2 e = (if 0 \<le> e then 2 ^ nat e else 1 / 2 ^ nat (- e))"

text \<open>For \<open>0 < x\<close>, the \<open>e\<close> with \<open>2^e \<le> x < 2^(e + 1)\<close>.\<close>

definition floorlog2 :: "rat \<Rightarrow> int" where
  "floorlog2 x =
     (let (p, q) = quotient_of x; e = bitlen p - bitlen q
      in if pow2 e \<le> x then e else e - 1)"

definition round_half_even :: "rat \<Rightarrow> int" where
  "round_half_even y =
     (let n = \<lfloor>y\<rfloor>; r = y - of_int n
      in if r < 1 / 2 then n else if 1 / 2 < r then n + 1 else if even n then n else n + 1)"

definition to_double :: "rat \<Rightarrow> rat" where
  "to_double x =
     (if x = 0 then 0
      else
        (let e = max (floorlog2 \<bar>x\<bar>) (- 1022); q = e - 52
         in sgn x * of_int (round_half_even (\<bar>x\<bar> / pow2 q)) * pow2 q))"

text \<open>\<open>a / b\<close> on finite numbers, \<open>b\<close> not zero.\<close>

definition fdiv :: "rat \<Rightarrow> rat \<Rightarrow> rat" where
  "fdiv a b = to_double (a / b)"

text \<open>
  The text of a badge. \<open>Number.prototype.toFixed\<close> gives fixed-point digits below
  \<open>10^21\<close>; from \<open>10^21\<close> on it returns \<open>Number.prototype.toString\<close> of the number (exponent
  notation), whose digits are not computed here: \<open>NumberToString x\<close> stands for that
  string.
\<close>

datatype js_text = Str string | NumberToString rat

text \<open>
  \<open>x.toFixed(f)\<close> as ECMAScript defines it: the sign is split off, \<open>n\<close> is the integer
  for which \<open>n / 10^f - x\<close> is closest to zero (the larger one of two), its digits are
  padded with zeros to \<open>f + 1\<close> places, and the point goes before the last \<open>f\<close> digits.
\<close>

definition toFixed :: "rat \<Rightarrow> nat \<Rightarrow> js_text" where
  "toFixed x f =
     (if 10 ^ 21 \<le> \<bar>x\<bar> then NumberToString x
      else
        (let s = (if x < 0 then ''-'' else []);
             n = \<lfloor>\<bar>x\<bar> * 10 ^ f + 1 / 2\<rfloor>;
             m = digits n;
             m = (if f \<noteq> 0 then
                    (let k = length m;
                         m = (if k \<le> f then replicate (f + 1 - k) CHR ''0'' @ m else m);
                         k = (if k \<le> f then f + 1 else k)
                     in take (k - f) m @ ''.'' @ drop (k - f) m)
                  else m)
         in Str (s @ m)))"

section \<open>The badge renderer\<close>

text \<open>Core Web Vitals thresholds. The literal \<open>0.1\<close> denotes the double nearest to it.\<close>

definition LCP_THRESHOLD :: rat where "LCP_THRESHOLD = 2500"
definition FID_THRESHOLD :: rat where "FID_THRESHOLD = 100"
definition INP_THRESHOLD :: rat where "INP_THRESHOLD = 200"
definition CLS_THRESHOLD :: rat where "CLS_THRESHOLD = to_double (1 / 10)"

text \<open>
  Tabs are named by the ids Chrome gives them, integers that are not negative
  (\<open>chrome.tabs.TAB_ID_NONE\<close>, which is \<open>-1\<close>, says that there is no tab; the sender of a
  content script's message always has one).
\<close>

type_synonym tab_id = nat

text \<open>
  The calls of the \<open>chrome.action\<close> API that the renderer makes, each with the tab it
  names, and the only exception its callbacks can raise.
\<close>

datatype action =
    SetIcon string tab_id
  | SetBadgeBackgroundColor string tab_id
  | SetBadgeText js_text tab_id

datatype exn = TypeError

text \<open>
  Both renderers call \<open>chrome.tabs.query\<close> and do their work in its callback, which
  receives the active tabs of the current window (here: their ids). The callback starts
  with \<^verbatim>\<open>const currentTab = tabid || tabs[0].id;\<close>: a \<open>tabid\<close> of 0 is falsy, and reading
  \<open>tabs[0].id\<close> of an empty result raises a TypeError.
\<close>

definition currentTab_of :: "tab_id \<Rightarrow> tab_id list \<Rightarrow> exn + tab_id" where
  "currentTab_of tabid tabs =
     (if tabid \<noteq> 0 then Inr tabid
      else (case tabs of [] \<Rightarrow> Inl TypeError | t # _ \<Rightarrow> Inr t))"

text \<open>
  The callback of \<open>badgeOverallPerf(badgeCategory, tabid)\<close> on the query result \<open>tabs\<close>:
  the \<open>chrome.action\<close> calls it makes, in order.
\<close>

definition badgeOverallPerf :: "string \<Rightarrow> tab_id \<Rightarrow> tab_id list \<Rightarrow> exn + action list" where
  "badgeOverallPerf badgeCategory tabid tabs =
     (case currentTab_of tabid tabs of
        Inl e \<Rightarrow> Inl e
      | Inr currentTab \<Rightarrow>
          Inr (if badgeCategory = ''POOR'' then
                 [SetIcon ''../../icons/slow128w.png'' currentTab,
                  SetBadgeText (Str []) currentTab]
               else if badgeCategory = ''GOOD'' then
                 [SetIcon ''../../icons/fast128w.png'' currentTab]
               else
                 [SetIcon ''../../icons/default128w.png'' currentTab,
                  SetBadgeText (Str []) currentTab]))"

text \<open>The callback of \<open>badgeMetric(metric, value, tabid)\<close> on the query result \<open>tabs\<close>.\<close>

definition badgeMetric :: "string \<Rightarrow> rat \<Rightarrow> tab_id \<Rightarrow> tab_id list \<Rightarrow> exn + action list" where
  "badgeMetric metric value tabid tabs =
     (case currentTab_of tabid tabs of
        Inl e \<Rightarrow> Inl e
      | Inr currentTab \<Rightarrow>
          (let bgColor = ''#000'' in
           if metric = ''cls'' \<and> value \<le> CLS_THRESHOLD then Inr []
           else if metric = ''lcp'' \<and> value \<le> LCP_THRESHOLD then Inr []
           else if metric = ''fid'' \<and> value \<le> FID_THRESHOLD then Inr []
           else
             Inr (if metric = ''lcp'' then
                    [SetIcon ''../../icons/slow128w-lcp.png'' currentTab,
                     SetBadgeBackgroundColor bgColor currentTab,
                     SetBadgeText (toFixed (fdiv value 1000) 2) currentTab]
                  else if metric = ''cls'' then
                    [SetIcon ''../../icons/slow128w-cls.png'' currentTab,
                     SetBadgeBackgroundColor bgColor currentTab,
                     SetBadgeText (toFixed value 2) currentTab]
                  else if metric = ''fid'' then
                    [SetIcon ''../../icons/slow128w-fid.png'' currentTab,
                     SetBadgeBackgroundColor bgColor currentTab,
                     SetBadgeText (toFixed value 2) currentTab]
                  else
                    [SetIcon ''../../icons/default128w.png'' currentTab,
                     SetBadgeBackgroundColor [] currentTab,
                     SetBadgeText (Str []) currentTab])))"

text \<open>
  What the browser shows for a tab: the icon, the badge background colour and the badge
  text of its action button. Each \<open>chrome.action\<close> call replaces one of the three for the
  tab it names; a callback that raised has made no call.
\<close>

record badge =
  icon :: string
  badgeBackgroundColor :: string
  badgeText :: js_text

type_synonym action_state = "tab_id \<Rightarrow> badge"

fun perform :: "action \<Rightarrow> action_state \<Rightarrow> action_state" where
  "perform (SetIcon path t) st = st(t := (st t)\<lparr>icon := path\<rparr>)"
| "perform (SetBadgeBackgroundColor color t) st = st(t := (st t)\<lparr>badgeBackgroundColor := color\<rparr>)"
| "perform (SetBadgeText text t) st = st(t := (st t)\<lparr>badgeText := text\<rparr>)"

definition render :: "exn + action list \<Rightarrow> action_state \<Rightarrow> action_state" where
  "render r st = (case r of Inl e \<Rightarrow> st | Inr as \<Rightarrow> foldl (\<lambda>st a. perform a st) st as)"

section \<open>The animation sequencer\<close>

text \<open>
  The message of the content script: the verdict \<open>passesAllThresholds\<close>, a string, and
  the three metrics, each entry given by its \<open>value\<close>, a finite Number.
\<close>

record web_vitals =
  lcp :: rat
  fid :: rat
  cls :: rat

record request =
  passesAllThresholds :: string
  metrics :: web_vitals

text \<open>
  \<open>animateBadges\<close> is an \<open>async\<close> function: it runs until an \<open>await\<close>, and the rest runs
  when the awaited promise resolves, with every other piece of code of the service
  worker free to run in between. A suspended call is a frame: its locals and the
  \<open>await\<close> it stands at, named after what follows it.
\<close>

datatype await =
    Wait_lcp | Wait_fid | Wait_cls | Wait_loop | Await_doesTabExist

record frame =
  f_request :: request
  f_tabId :: tab_id
  f_animationId :: nat
  f_pc :: await

text \<open>
  What a call of \<open>animateBadges\<close> does to the world, in the order it does it: the write to
  \<open>animationsByTabId\<close>, the calls of the two renderers, of \<open>wait\<close> and of \<open>doesTabExist\<close>.
\<close>

datatype call =
    Registered tab_id
  | BadgeOverallPerf string tab_id
  | BadgeMetric string rat tab_id
  | Wait nat
  | DoesTabExist tab_id

text \<open>
  The state of the service worker: the two globals, the suspended calls and the log of
  what was done, each entry with the \<open>animationId\<close> of the call that did it.
  \<open>globalAnimationId\<close> is a Number that only \<open>++\<close> changes; Numbers count exactly up to
  \<open>2^53\<close>, which no service worker reaches (at a million starts a second it takes 285
  years), so the counter is a natural number here.
\<close>

record state =
  globalAnimationId :: nat
  animationsByTabId :: "tab_id \<rightharpoonup> nat"
  frames :: "frame list"
  trace :: "(nat \<times> call) list"

definition init :: state where
  "init = \<lparr>globalAnimationId = 0, animationsByTabId = Map.empty, frames = [], trace = []\<rparr>"

definition emit :: "nat \<Rightarrow> call \<Rightarrow> state \<Rightarrow> state" where
  "emit a c s = s\<lparr>trace := trace s @ [(a, c)]\<rparr>"

definition suspend :: "frame \<Rightarrow> state \<Rightarrow> state" where
  "suspend f s = s\<lparr>frames := frames s @ [f]\<rparr>"

definition delay :: nat where
  "delay = 2000"

text \<open>\<open>animateBadges(request, tabId)\<close> up to its first \<open>await\<close>, or to its end.\<close>

definition animateBadges :: "request \<Rightarrow> tab_id \<Rightarrow> state \<Rightarrow> state" where
  "animateBadges request tabId s =
     (let animationId = globalAnimationId s;
          s = emit animationId (Registered tabId)
                (s\<lparr>animationsByTabId := (animationsByTabId s)(tabId \<mapsto> animationId)\<rparr>);
          s = s\<lparr>globalAnimationId := globalAnimationId s + 1\<rparr>;
          s = emit animationId (BadgeOverallPerf (passesAllThresholds request) tabId) s
      in if passesAllThresholds request = ''POOR'' then
           suspend \<lparr>f_request = request, f_tabId = tabId, f_animationId = animationId,
                     f_pc = Wait_lcp\<rparr>
             (emit animationId (Wait delay) s)
         else s)"

text \<open>
  The rest of the call after one of its four \<open>await wait(delay)\<close>: the check
  \<^verbatim>\<open>if (animationsByTabId.get(tabId) !== animationId) return;\<close> and what follows it up to
  the next \<open>await\<close>.
\<close>

definition after_wait :: "frame \<Rightarrow> state \<Rightarrow> state" where
  "after_wait f s =
     (let request = f_request f; tabId = f_tabId f; animationId = f_animationId f in
      case f_pc f of
        Wait_lcp \<Rightarrow>
          if animationsByTabId s tabId \<noteq> Some animationId then s
          else suspend (f\<lparr>f_pc := Wait_fid\<rparr>)
                 (emit animationId (Wait delay)
                   (emit animationId (BadgeMetric ''lcp'' (lcp (metrics request)) tabId) s))
      | Wait_fid \<Rightarrow>
          if animationsByTabId s tabId \<noteq> Some animationId then s
          else suspend (f\<lparr>f_pc := Wait_cls\<rparr>)
                 (emit animationId (Wait delay)
                   (emit animationId (BadgeMetric ''fid'' (fid (metrics request)) tabId) s))
      | Wait_cls \<Rightarrow>
          if animationsByTabId s tabId \<noteq> Some animationId then s
          else suspend (f\<lparr>f_pc := Wait_loop\<rparr>)
                 (emit animationId (Wait delay)
                   (emit animationId (BadgeMetric ''cls'' (cls (metrics request)) tabId) s))
      | Wait_loop \<Rightarrow>
          if animationsByTabId s tabId \<noteq> Some animationId then s
          else suspend (f\<lparr>f_pc := Await_doesTabExist\<rparr>)
                 (emit animationId (DoesTabExist tabId) s)
      | Await_doesTabExist \<Rightarrow> s)"

text \<open>
  \<open>doesTabExist\<close> resolves its promise in the callback of \<open>chrome.tabs.get\<close> with
  \<open>!chrome.runtime.lastError\<close>; \<open>lastError\<close> is unset, or holds the message of the failed
  lookup.
\<close>

definition doesTabExist :: "string option \<Rightarrow> bool" where
  "doesTabExist lastError = (lastError = None)"

text \<open>
  The rest of the call after \<open>await doesTabExist(tabId)\<close>:
  \<^verbatim>\<open>if (!(await doesTabExist(tabId))) return; animateBadges(request, tabId);\<close>
\<close>

definition after_doesTabExist :: "frame \<Rightarrow> bool \<Rightarrow> state \<Rightarrow> state" where
  "after_doesTabExist f tabExists s =
     (if \<not> tabExists then s else animateBadges (f_request f) (f_tabId f) s)"

text \<open>
  What the event loop can run next: the \<open>onMessage\<close> listener on a message that carries a
  verdict, which calls \<open>animateBadges(request, sender.tab.id)\<close>; the timer of the \<open>wait\<close>
  a call stands at; the callback of the \<open>chrome.tabs.get\<close> a call stands at. Calls are
  named by their \<open>animationId\<close>. An event for a call that does not stand at such an
  \<open>await\<close> changes nothing.
\<close>

datatype event =
    Message request tab_id
  | TimerFired nat
  | TabsGetCallback nat "string option"

fun step :: "event \<Rightarrow> state \<Rightarrow> state" where
  "step (Message request tabId) s = animateBadges request tabId s"
| "step (TimerFired a) s =
     (case find (\<lambda>f. f_animationId f = a \<and> f_pc f \<noteq> Await_doesTabExist) (frames s) of
        None \<Rightarrow> s
      | Some f \<Rightarrow> after_wait f (s\<lparr>frames := remove1 f (frames s)\<rparr>))"
| "step (TabsGetCallback a lastError) s =
     (case find (\<lambda>f. f_animationId f = a \<and> f_pc f = Await_doesTabExist) (frames s) of
        None \<Rightarrow> s
      | Some f \<Rightarrow>
          after_doesTabExist f (doesTabExist lastError) (s\<lparr>frames := remove1 f (frames s)\<rparr>))"

text \<open>A run of the service worker: the events in the order the event loop takes them.\<close>

fun exec :: "event list \<Rightarrow> state \<Rightarrow> state" where
  "exec [] s = s"
| "exec (e # es) s = exec es (step e s)"

text \<open>The log read back: what one call did, and the generations written for a tab.\<close>

definition by_call :: "nat \<Rightarrow> (nat \<times> call) list \<Rightarrow> call list" where
  "by_call a tr = map snd (filter (\<lambda>x. fst x = a) tr)"

fun is_Registered :: "call \<Rightarrow> bool" where
  "is_Registered (Registered t) = True"
| "is_Registered c = False"

definition generations :: "(nat \<times> call) list \<Rightarrow> nat list" where
  "generations tr = map fst (filter (\<lambda>x. is_Registered (snd x)) tr)"

definition generations_of :: "tab_id \<Rightarrow> (nat \<times> call) list \<Rightarrow> nat list" where
  "generations_of t tr = map fst (filter (\<lambda>x. snd x = Registered t) tr)"

text \<open>
  What holds in every state the service worker can reach. Every suspended call was
  started by a request with verdict \<open>POOR\<close>; the \<open>animationId\<close>s of the suspended calls
  differ; every \<open>animationId\<close> in use is below the counter.
\<close>

definition consistent :: "state \<Rightarrow> bool" where
  "consistent s \<longleftrightarrow>
     (\<forall>f \<in> set (frames s). f_animationId f < globalAnimationId s \<and>
        passesAllThresholds (f_request f) = ''POOR'') \<and>
     distinct (map f_animationId (frames s)) \<and>
     (\<forall>t g. animationsByTabId s t = Some g \<longrightarrow> g < globalAnimationId s) \<and>
     (\<forall>x \<in> set (trace s). fst x < globalAnimationId s)"

text \<open>
  The generations written to \<open>animationsByTabId\<close> grow, and the entry of a tab is the
  last generation written for it.
\<close>

definition last_generation :: "tab_id \<Rightarrow> (nat \<times> call) list \<Rightarrow> nat option" where
  "last_generation t tr =
     (if generations_of t tr = [] then None else Some (last (generations_of t tr)))"

definition registered_ok :: "state \<Rightarrow> bool" where
  "registered_ok s \<longleftrightarrow>
     sorted_wrt (<) (generations (trace s)) \<and>
     (\<forall>t. animationsByTabId s t = last_generation t (trace s))"

text \<open>
  The calls that \<open>animateBadges(request, tabId)\<close> makes in one round, in the order of its
  text, how many of them a call has made when it stands at an \<open>await\<close>, and what it means
  that the calls logged under an \<open>animationId\<close> follow that order: they are the first
  calls of the round, as many as the suspended call has made, or some number of them
  once the call is gone.
\<close>

definition round_calls :: "request \<Rightarrow> tab_id \<Rightarrow> call list" where
  "round_calls request tabId =
     [Registered tabId,
      BadgeOverallPerf (passesAllThresholds request) tabId,
      Wait delay,
      BadgeMetric ''lcp'' (lcp (metrics request)) tabId,
      Wait delay,
      BadgeMetric ''fid'' (fid (metrics request)) tabId,
      Wait delay,
      BadgeMetric ''cls'' (cls (metrics request)) tabId,
      Wait delay,
      DoesTabExist tabId]"

fun calls_made :: "await \<Rightarrow> nat" where
  "calls_made Wait_lcp = 3"
| "calls_made Wait_fid = 5"
| "calls_made Wait_cls = 7"
| "calls_made Wait_loop = 9"
| "calls_made Await_doesTabExist = 10"

definition in_order :: "request \<Rightarrow> tab_id \<Rightarrow> nat \<Rightarrow> state \<Rightarrow> bool" where
  "in_order r T a s \<longleftrightarrow>
     (\<exists>f \<in> set (frames s). f_animationId f = a \<and> f_request f = r \<and> f_tabId f = T \<and>
        by_call a (trace s) = take (calls_made (f_pc f)) (round_calls r T)) \<or>
     (a \<notin> f_animationId ` set (frames s) \<and> (\<exists>n. by_call a (trace s) = take n (round_calls r T)))"

declare hashCode_loop.simps [simp del]
declare digits.simps [simp del]

section \<open>The hash key\<close>

lemma ToInt32_sint: "ToInt32 x = sint (word_of_int x :: 32 word)"
  by (simp add: ToInt32_def int_word_sint)

lemma hash_body: "js_and (js_shl h 5 - h + c) (js_shl h 5 - h + c) = wrap32 (h * 31 + c)"
proof -
  have "(word_of_int (sint (word_of_int (sint (word_of_int h :: 32 word) * 32) :: 32 word) - h + c)
           :: 32 word) = word_of_int (h * 31 + c)"
    by simp
  then show ?thesis
    by (simp add: js_and_def js_shl_def wrap32_def ToInt32_sint mult.commute)
qed

lemma hashCode_loop_foldl:
  "hashCode_loop str i h =
     foldl (\<lambda>hash charCode. wrap32 (hash * 31 + charCode)) h (map uint (drop i str))"
proof (induction str i h rule: hashCode_loop.induct)
  case (1 str i hash)
  show ?case
  proof (cases "i < length str")
    case True
    then have d: "drop i str = str ! i # drop (i + 1) str"
      by (simp add: Cons_nth_drop_Suc)
    show ?thesis
      using True 1 [OF True refl refl refl]
      by (subst hashCode_loop.simps) (simp add: d hash_body charCodeAt_def Let_def)
  next
    case False
    then show ?thesis
      by (subst hashCode_loop.simps) simp
  qed
qed

text \<open>
  C9. \<open>hashCode\<close> is a function of its argument (equal strings give equal keys), the
  empty string hashes to the empty key, and for a non-empty string the key is the decimal
  text of the rolling hash \<open>hash * 31 + charCode\<close> over the code units of the string,
  wrapped to a signed 32-bit integer at each step.
\<close>

theorem hashCode_rolling_hash:
  "(s = t \<longrightarrow> hashCode s = hashCode t) \<and>
   hashCode [] = [] \<and>
   (s \<noteq> [] \<longrightarrow> hashCode s = int_toString (rolling_hash (map uint s)))"
proof (intro conjI impI)
  assume "s = t"
  then show "hashCode s = hashCode t" by (rule arg_cong)
next
  show "hashCode [] = []" by (simp add: hashCode_def)
next
  assume "s \<noteq> []"
  then have "hashCode s = int_toString (hashCode_loop s 0 0)"
    by (simp add: hashCode_def)
  also have "hashCode_loop s 0 0 = rolling_hash (map uint s)"
    unfolding rolling_hash_def by (simp add: hashCode_loop_foldl)
  finally show "hashCode s = int_toString (rolling_hash (map uint s))" .
qed

theorem hashCode_rolling_hash_witness:
  "hashCode [104, 116, 116, 112] = hashCode [104, 116, 116, 112] \<and>
   hashCode [] = [] \<and>
   [104, 116, 116, 112] \<noteq> ([] :: js_string) \<and>
   hashCode [104, 116, 116, 112] = int_toString (rolling_hash [104, 116, 116, 112]) \<and>
   rolling_hash [104, 116, 116, 112] = 3213448 \<and>
   hashCode [104, 116, 116, 112] = ''3213448'' \<and>
   hashCode [104, 116, 116, 112, 115, 58, 47, 47, 101, 120, 97, 109, 112, 108, 101, 46, 99,
             111, 109, 47] = ''-1856498399''"
proof -
  have e: "rolling_hash [104, 116, 116, 112] = 3213448"
    "hashCode [104, 116, 116, 112] = ''3213448''"
    "hashCode [104, 116, 116, 112, 115, 58, 47, 47, 101, 120, 97, 109, 112, 108, 101, 46, 99,
               111, 109, 47] = ''-1856498399''"
    by code_simp+
  show ?thesis
    using hashCode_rolling_hash [of "[104, 116, 116, 112]" "[104, 116, 116, 112]"] e
    by simp
qed

section \<open>Invariants of the sequencer\<close>


lemma exec_append: "exec (es @ es') s = exec es' (exec es s)"
  by (induction es arbitrary: s) simp_all

lemma exec_snoc: "exec (es @ [e]) s = step e (exec es s)"
  by (simp add: exec_append)

lemma consistent_init: "consistent init"
  by (simp add: consistent_def init_def)

lemma consistent_animateBadges: "consistent s \<Longrightarrow> consistent (animateBadges request tabId s)"
  by (auto simp: consistent_def animateBadges_def emit_def suspend_def Let_def less_Suc_eq)


lemma distinct_ids_remove1:
  "distinct (map f_animationId fs) \<Longrightarrow> f \<in> set fs \<Longrightarrow> g \<in> set (remove1 f fs) \<Longrightarrow>
   f_animationId g \<noteq> f_animationId f"
  by (auto simp: distinct_map dest: inj_onD)

lemma distinct_ids_remove1':
  "distinct (map f_animationId fs) \<Longrightarrow> distinct (map f_animationId (remove1 f fs))"
  by (auto simp: distinct_map intro: inj_on_subset)

lemma consistent_remove1: "consistent s \<Longrightarrow> consistent (s\<lparr>frames := remove1 f (frames s)\<rparr>)"
  unfolding consistent_def using distinct_ids_remove1' [of "frames s" f]
  by (auto dest: notin_set_remove1)

lemma emit_sel [simp]:
  "globalAnimationId (emit a c s) = globalAnimationId s"
  "animationsByTabId (emit a c s) = animationsByTabId s"
  "frames (emit a c s) = frames s"
  "trace (emit a c s) = trace s @ [(a, c)]"
  by (simp_all add: emit_def)

lemma suspend_sel [simp]:
  "globalAnimationId (suspend f s) = globalAnimationId s"
  "animationsByTabId (suspend f s) = animationsByTabId s"
  "frames (suspend f s) = frames s @ [f]"
  "trace (suspend f s) = trace s"
  by (simp_all add: suspend_def)

lemma consistent_emit: "consistent s \<Longrightarrow> a < globalAnimationId s \<Longrightarrow> consistent (emit a c s)"
  by (simp add: consistent_def emit_def)

lemma consistent_suspend:
  "consistent s \<Longrightarrow> f_animationId f < globalAnimationId s \<Longrightarrow>
   passesAllThresholds (f_request f) = ''POOR'' \<Longrightarrow>
   f_animationId f \<notin> f_animationId ` set (frames s) \<Longrightarrow> consistent (suspend f s)"
  by (simp add: consistent_def suspend_def)

lemma consistent_after_wait:
  assumes "consistent s" "f_animationId f < globalAnimationId s"
    "passesAllThresholds (f_request f) = ''POOR''"
    "f_animationId f \<notin> f_animationId ` set (frames s)"
  shows "consistent (after_wait f s)"
  using assms
  by (cases "f_pc f") (simp_all add: after_wait_def Let_def consistent_emit consistent_suspend)

lemma find_frame:
  "distinct (map f_animationId fs) \<Longrightarrow> f \<in> set fs \<Longrightarrow> P f \<Longrightarrow>
   (\<And>g. P g \<Longrightarrow> f_animationId g = f_animationId f) \<Longrightarrow> find P fs = Some f"
proof (induction fs)
  case Nil
  then show ?case by simp
next
  case (Cons x xs)
  show ?case
  proof (cases "P x")
    case True
    with Cons.prems have "f_animationId x = f_animationId f" by blast
    with Cons.prems(1,2) have "x = f" by (auto simp: image_iff)
    with True show ?thesis by simp
  next
    case False
    with Cons.prems have "f \<in> set xs" "distinct (map f_animationId xs)" by auto
    then have "find P xs = Some f" using Cons.IH Cons.prems(3,4) by blast
    with False show ?thesis by simp
  qed
qed

lemma find_frame_in: "find P fs = Some f \<Longrightarrow> f \<in> set fs \<and> P f"
  by (induction fs) (auto split: if_splits)

lemma fresh_after_remove1:
  assumes "consistent s" "f \<in> set (frames s)"
  shows "f_animationId f \<notin> f_animationId ` set (remove1 f (frames s))"
proof
  assume "f_animationId f \<in> f_animationId ` set (remove1 f (frames s))"
  then obtain g where g: "g \<in> set (remove1 f (frames s))" "f_animationId f = f_animationId g"
    by auto
  have "distinct (map f_animationId (frames s))" using assms(1) by (simp add: consistent_def)
  from distinct_ids_remove1 [OF this assms(2) g(1)] g(2) show False by simp
qed

lemma step_TimerFired:
  assumes "consistent s" "f \<in> set (frames s)" "f_pc f \<noteq> Await_doesTabExist"
  shows "step (TimerFired (f_animationId f)) s = after_wait f (s\<lparr>frames := remove1 f (frames s)\<rparr>)"
proof -
  have d: "distinct (map f_animationId (frames s))" using assms(1) by (simp add: consistent_def)
  have "find (\<lambda>g. f_animationId g = f_animationId f \<and> f_pc g \<noteq> Await_doesTabExist) (frames s) = Some f"
    by (rule find_frame [OF d assms(2)]) (simp_all add: assms(3))
  then show ?thesis by simp
qed

lemma step_TabsGetCallback:
  assumes "consistent s" "f \<in> set (frames s)" "f_pc f = Await_doesTabExist"
  shows "step (TabsGetCallback (f_animationId f) lastError) s =
         after_doesTabExist f (doesTabExist lastError) (s\<lparr>frames := remove1 f (frames s)\<rparr>)"
proof -
  have d: "distinct (map f_animationId (frames s))" using assms(1) by (simp add: consistent_def)
  have "find (\<lambda>g. f_animationId g = f_animationId f \<and> f_pc g = Await_doesTabExist) (frames s) = Some f"
    by (rule find_frame [OF d assms(2)]) (simp_all add: assms(3))
  then show ?thesis by simp
qed

lemma consistent_resumed:
  assumes w: "consistent s" and f: "f \<in> set (frames s)"
  shows "consistent (after_wait f (s\<lparr>frames := remove1 f (frames s)\<rparr>))"
proof -
  have 2: "f_animationId f < globalAnimationId s" "passesAllThresholds (f_request f) = ''POOR''"
    using w f by (simp_all add: consistent_def)
  show ?thesis
    using fresh_after_remove1 [OF w f] 2 by (intro consistent_after_wait consistent_remove1 w) simp_all
qed

lemma consistent_step: "consistent s \<Longrightarrow> consistent (step e s)"
proof (cases e)
  case (Message request tabId)
  assume "consistent s"
  with Message show ?thesis by (simp add: consistent_animateBadges)
next
  case (TimerFired a)
  assume w: "consistent s"
  show ?thesis
  proof (cases "find (\<lambda>f. f_animationId f = a \<and> f_pc f \<noteq> Await_doesTabExist) (frames s)")
    case None
    with TimerFired w show ?thesis by simp
  next
    case (Some f)
    have "f \<in> set (frames s)" using find_frame_in [OF Some] by simp
    from consistent_resumed [OF w this] TimerFired Some show ?thesis by simp
  qed
next
  case (TabsGetCallback a lastError)
  assume w: "consistent s"
  show ?thesis
  proof (cases "find (\<lambda>f. f_animationId f = a \<and> f_pc f = Await_doesTabExist) (frames s)")
    case None
    with TabsGetCallback w show ?thesis by simp
  next
    case (Some f)
    have "consistent (after_doesTabExist f (doesTabExist lastError) (s\<lparr>frames := remove1 f (frames s)\<rparr>))"
      using w by (simp add: after_doesTabExist_def consistent_animateBadges consistent_remove1)
    with TabsGetCallback Some show ?thesis by simp
  qed
qed

lemma consistent_exec: "consistent s \<Longrightarrow> consistent (exec es s)"
  by (induction es arbitrary: s) (simp_all add: consistent_step)

lemma consistent_reachable: "consistent (exec es init)"
  by (simp add: consistent_exec consistent_init)


lemma by_call_append [simp]: "by_call a (tr @ tr') = by_call a tr @ by_call a tr'"
  by (simp add: by_call_def)

lemma by_call_Cons [simp]:
  "by_call a ((b, c) # tr) = (if b = a then c # by_call a tr else by_call a tr)"
  by (simp add: by_call_def)

lemma by_call_Nil [simp]: "by_call a [] = []"
  by (simp add: by_call_def)

lemma generations_append [simp]: "generations (tr @ tr') = generations tr @ generations tr'"
  by (simp add: generations_def)

lemma generations_Nil [simp]: "generations [] = []"
  by (simp add: generations_def)

lemma generations_Cons [simp]:
  "generations ((b, c) # tr) = (if is_Registered c then b # generations tr else generations tr)"
  by (simp add: generations_def)

lemma generations_of_append [simp]:
  "generations_of t (tr @ tr') = generations_of t tr @ generations_of t tr'"
  by (simp add: generations_of_def)

lemma generations_of_Nil [simp]: "generations_of t [] = []"
  by (simp add: generations_of_def)

lemma generations_of_Cons [simp]:
  "generations_of t ((b, c) # tr) =
     (if c = Registered t then b # generations_of t tr else generations_of t tr)"
  by (simp add: generations_of_def)

lemma after_wait_table [simp]: "animationsByTabId (after_wait f s) = animationsByTabId s"
  by (cases "f_pc f") (simp_all add: after_wait_def Let_def)

lemma after_wait_counter [simp]: "globalAnimationId (after_wait f s) = globalAnimationId s"
  by (cases "f_pc f") (simp_all add: after_wait_def Let_def)

lemma after_wait_generations [simp]:
  "generations (trace (after_wait f s)) = generations (trace s)"
  by (cases "f_pc f") (simp_all add: after_wait_def Let_def)

lemma after_wait_generations_of [simp]:
  "generations_of t (trace (after_wait f s)) = generations_of t (trace s)"
  by (cases "f_pc f") (simp_all add: after_wait_def Let_def)

lemma after_wait_by_call:
  "a \<noteq> f_animationId f \<Longrightarrow> by_call a (trace (after_wait f s)) = by_call a (trace s)"
  by (cases "f_pc f") (simp_all add: after_wait_def Let_def)

lemma after_wait_frames:
  "set (frames (after_wait f s)) \<subseteq> set (frames s) \<union> {g. f_animationId g = f_animationId f}"
  by (cases "f_pc f") (auto simp: after_wait_def Let_def)

lemma animateBadges_sel:
  "globalAnimationId (animateBadges request tabId s) = globalAnimationId s + 1"
  "animationsByTabId (animateBadges request tabId s) =
     (animationsByTabId s)(tabId \<mapsto> globalAnimationId s)"
  "frames (animateBadges request tabId s) =
     frames s @ (if passesAllThresholds request = ''POOR''
       then [\<lparr>f_request = request, f_tabId = tabId, f_animationId = globalAnimationId s,
              f_pc = Wait_lcp\<rparr>] else [])"
  "trace (animateBadges request tabId s) =
     trace s @ [(globalAnimationId s, Registered tabId),
                (globalAnimationId s, BadgeOverallPerf (passesAllThresholds request) tabId)] @
     (if passesAllThresholds request = ''POOR'' then [(globalAnimationId s, Wait delay)] else [])"
  by (simp_all add: animateBadges_def Let_def)

lemma registered_ok_init: "registered_ok init"
  by (simp add: registered_ok_def init_def generations_def last_generation_def generations_of_def)

lemma registered_ok_animateBadges:
  assumes "consistent s" "registered_ok s"
  shows "registered_ok (animateBadges request tabId s)"
proof -
  have lt: "\<forall>g \<in> set (generations (trace s)). g < globalAnimationId s"
    using assms(1) by (auto simp: consistent_def generations_def)
  show ?thesis
    using assms(2) lt
    by (auto simp: registered_ok_def animateBadges_sel sorted_wrt_append last_generation_def)
qed

lemma registered_ok_step:
  assumes "consistent s" "registered_ok s"
  shows "registered_ok (step e s)"
proof (cases e)
  case (Message request tabId)
  with assms show ?thesis by (simp add: registered_ok_animateBadges)
next
  case (TimerFired a)
  with assms(2) show ?thesis
    by (simp add: registered_ok_def last_generation_def split: option.splits)
next
  case (TabsGetCallback a lastError)
  show ?thesis
  proof (cases "find (\<lambda>f. f_animationId f = a \<and> f_pc f = Await_doesTabExist) (frames s)")
    case None
    with TabsGetCallback assms show ?thesis by simp
  next
    case (Some f)
    have "registered_ok (s\<lparr>frames := remove1 f (frames s)\<rparr>)"
      using assms(2) by (simp add: registered_ok_def)
    then have "registered_ok (after_doesTabExist f (doesTabExist lastError) (s\<lparr>frames := remove1 f (frames s)\<rparr>))"
      using assms(1) by (simp add: after_doesTabExist_def registered_ok_animateBadges consistent_remove1)
    with TabsGetCallback Some show ?thesis by simp
  qed
qed

lemma reachable_ok: "consistent (exec es init) \<and> registered_ok (exec es init)"
proof (induction es rule: rev_induct)
  case Nil
  show ?case by (simp add: consistent_init registered_ok_init)
next
  case (snoc e es)
  then show ?case by (simp add: exec_snoc consistent_step registered_ok_step)
qed

lemma silent_step:
  assumes "consistent s" "a < globalAnimationId s" "a \<notin> f_animationId ` set (frames s)"
  shows "by_call a (trace (step e s)) = by_call a (trace s) \<and>
         a \<notin> f_animationId ` set (frames (step e s)) \<and> a < globalAnimationId (step e s)"
proof (cases e)
  case (Message request tabId)
  with assms(2,3) show ?thesis by (simp add: animateBadges_sel)
next
  case (TimerFired b)
  show ?thesis
  proof (cases "find (\<lambda>f. f_animationId f = b \<and> f_pc f \<noteq> Await_doesTabExist) (frames s)")
    case None
    with TimerFired assms show ?thesis by simp
  next
    case (Some f)
    have f: "f \<in> set (frames s)" using find_frame_in [OF Some] by simp
    with assms(3) have ne: "a \<noteq> f_animationId f" by auto
    have "a \<notin> f_animationId ` set (frames (after_wait f (s\<lparr>frames := remove1 f (frames s)\<rparr>)))"
      using after_wait_frames [of f "s\<lparr>frames := remove1 f (frames s)\<rparr>"] assms(3) ne
        set_remove1_subset [of f "frames s"]
      by auto
    with TimerFired Some ne assms(2) show ?thesis by (simp add: after_wait_by_call)
  qed
next
  case (TabsGetCallback b lastError)
  show ?thesis
  proof (cases "find (\<lambda>f. f_animationId f = b \<and> f_pc f = Await_doesTabExist) (frames s)")
    case None
    with TabsGetCallback assms show ?thesis by simp
  next
    case (Some f)
    have "a \<notin> f_animationId ` set (remove1 f (frames s))"
      using assms(3) set_remove1_subset [of f "frames s"] by auto
    with TabsGetCallback Some assms(2) show ?thesis
      by (simp add: after_doesTabExist_def animateBadges_sel)
  qed
qed

lemma silent_exec:
  assumes "consistent s" "a < globalAnimationId s" "a \<notin> f_animationId ` set (frames s)"
  shows "by_call a (trace (exec es s)) = by_call a (trace s) \<and>
         a \<notin> f_animationId ` set (frames (exec es s))"
  using assms
proof (induction es arbitrary: s)
  case Nil
  then show ?case by simp
next
  case (Cons e es)
  from silent_step [OF Cons.prems, of e] consistent_step [OF Cons.prems(1), of e]
  show ?case using Cons.IH [of "step e s"] by simp
qed

section \<open>Generations\<close>

lemma step_counter_mono: "globalAnimationId s \<le> globalAnimationId (step e s)"
proof (cases e)
  case (Message request tabId)
  then show ?thesis by (simp add: animateBadges_sel)
next
  case (TimerFired a)
  then show ?thesis by (simp split: option.splits)
next
  case (TabsGetCallback a lastError)
  then show ?thesis by (simp add: after_doesTabExist_def animateBadges_sel split: option.splits)
qed

text \<open>
  C2. After any run of the service worker, a call of \<open>animateBadges\<close> for a tab writes the
  current value of the counter as the generation of that tab; this value is larger than
  every generation written before, for whatever tab, so the generations written grow
  strictly; the counter goes up by one with the call and no event ever lowers it; and
  the entry of a tab is always the generation of the last call made for that tab (of
  the \<open>n\<close>-th call after \<open>n\<close> calls), or nothing when no call was made for it.
\<close>

theorem animateBadges_generation:
  "let s = exec es init; s' = animateBadges request tabId s in
     animationsByTabId s' tabId = Some (globalAnimationId s) \<and>
     generations (trace s') = generations (trace s) @ [globalAnimationId s] \<and>
     (\<forall>g \<in> set (generations (trace s)). g < globalAnimationId s) \<and>
     sorted_wrt (<) (generations (trace s')) \<and>
     globalAnimationId s' = globalAnimationId s + 1 \<and>
     globalAnimationId s \<le> globalAnimationId (step e s) \<and>
     animationsByTabId s t =
       (if generations_of t (trace s) = [] then None
        else Some (last (generations_of t (trace s))))"
proof -
  define s where "s = exec es init"
  have c: "consistent s" and r: "registered_ok s"
    using reachable_ok [of es] by (simp_all add: s_def)
  have lt: "\<forall>g \<in> set (generations (trace s)). g < globalAnimationId s"
    using c by (auto simp: consistent_def generations_def)
  have r': "registered_ok (animateBadges request tabId s)"
    using c r by (rule registered_ok_animateBadges)
  show ?thesis
    unfolding Let_def s_def [symmetric]
    using lt r r' step_counter_mono [of s e]
    by (simp add: animateBadges_sel registered_ok_def last_generation_def)
qed

theorem animateBadges_generation_witness:
  "generations (trace (exec [Message \<lparr>passesAllThresholds = ''POOR'', metrics = \<lparr>lcp = 3000, fid = 50, cls = 1 / 20\<rparr>\<rparr> 7,
                            Message \<lparr>passesAllThresholds = ''GOOD'', metrics = \<lparr>lcp = 1000, fid = 50, cls = 1 / 20\<rparr>\<rparr> 8] init)) = [0, 1] \<and>
   globalAnimationId (exec [Message \<lparr>passesAllThresholds = ''POOR'', metrics = \<lparr>lcp = 3000, fid = 50, cls = 1 / 20\<rparr>\<rparr> 7,
                            Message \<lparr>passesAllThresholds = ''GOOD'', metrics = \<lparr>lcp = 1000, fid = 50, cls = 1 / 20\<rparr>\<rparr> 8] init) = 2 \<and>
   animationsByTabId (animateBadges \<lparr>passesAllThresholds = ''GOOD'', metrics = \<lparr>lcp = 1000, fid = 50, cls = 1 / 20\<rparr>\<rparr> 7
     (exec [Message \<lparr>passesAllThresholds = ''POOR'', metrics = \<lparr>lcp = 3000, fid = 50, cls = 1 / 20\<rparr>\<rparr> 7,
            Message \<lparr>passesAllThresholds = ''GOOD'', metrics = \<lparr>lcp = 1000, fid = 50, cls = 1 / 20\<rparr>\<rparr> 8] init)) 7 = Some 2 \<and>
   animationsByTabId (exec [Message \<lparr>passesAllThresholds = ''POOR'', metrics = \<lparr>lcp = 3000, fid = 50, cls = 1 / 20\<rparr>\<rparr> 7,
                            Message \<lparr>passesAllThresholds = ''GOOD'', metrics = \<lparr>lcp = 1000, fid = 50, cls = 1 / 20\<rparr>\<rparr> 8] init) 7 = Some 0"
  using animateBadges_generation
    [of "[Message \<lparr>passesAllThresholds = ''POOR'', metrics = \<lparr>lcp = 3000, fid = 50, cls = 1 / 20\<rparr>\<rparr> 7,
          Message \<lparr>passesAllThresholds = ''GOOD'', metrics = \<lparr>lcp = 1000, fid = 50, cls = 1 / 20\<rparr>\<rparr> 8]"
        "\<lparr>passesAllThresholds = ''GOOD'', metrics = \<lparr>lcp = 1000, fid = 50, cls = 1 / 20\<rparr>\<rparr>" 7
        "TimerFired 0" 7]
  by (simp add: init_def animateBadges_def emit_def suspend_def Let_def delay_def)

text \<open>
  C3. A call of \<open>animateBadges\<close> with a verdict other than \<open>POOR\<close>, whatever the metrics,
  registers its generation, calls \<open>badgeOverallPerf\<close> once and ends: it calls neither
  \<open>wait\<close> nor \<open>badgeMetric\<close>, it leaves no suspended call behind, and whatever runs later,
  nothing more is ever done under its \<open>animationId\<close>.
\<close>

theorem non_failing_verdict_ends:
  assumes "passesAllThresholds request \<noteq> ''POOR''"
  shows "let s = exec es init; a = globalAnimationId s; s' = animateBadges request tabId s in
     trace s' = trace s @ [(a, Registered tabId),
                           (a, BadgeOverallPerf (passesAllThresholds request) tabId)] \<and>
     frames s' = frames s \<and>
     by_call a (trace s) = [] \<and>
     by_call a (trace (exec es' s')) =
       [Registered tabId, BadgeOverallPerf (passesAllThresholds request) tabId] \<and>
     a \<notin> f_animationId ` set (frames (exec es' s'))"
proof -
  define s where "s = exec es init"
  define s' where "s' = animateBadges request tabId s"
  have c: "consistent s" using reachable_ok [of es] by (simp add: s_def)
  have c': "consistent s'" unfolding s'_def using c by (rule consistent_animateBadges)
  have fresh: "globalAnimationId s \<notin> f_animationId ` set (frames s)"
    using c by (auto simp: consistent_def)
  have none: "by_call (globalAnimationId s) (trace s) = []"
    using c by (auto simp: consistent_def by_call_def filter_empty_conv)
  have 1: "globalAnimationId s < globalAnimationId s'"
    and 2: "globalAnimationId s \<notin> f_animationId ` set (frames s')"
    using assms fresh by (simp_all add: s'_def animateBadges_sel)
  from silent_exec [OF c' 1 2, of es'] none assms
  show ?thesis
    unfolding Let_def s_def [symmetric] s'_def [symmetric]
    by (simp add: s'_def animateBadges_sel)
qed

theorem non_failing_verdict_ends_witness:
  "''GOOD'' \<noteq> ''POOR'' \<and>
   trace (animateBadges \<lparr>passesAllThresholds = ''GOOD'', metrics = \<lparr>lcp = 9000, fid = 500, cls = 1 / 2\<rparr>\<rparr> 7 (exec [] init)) =
     [(0, Registered 7), (0, BadgeOverallPerf ''GOOD'' 7)] \<and>
   frames (animateBadges \<lparr>passesAllThresholds = ''GOOD'', metrics = \<lparr>lcp = 9000, fid = 500, cls = 1 / 2\<rparr>\<rparr> 7 (exec [] init)) = [] \<and>
   by_call 0 (trace (exec [TimerFired 0, TabsGetCallback 0 None]
     (animateBadges \<lparr>passesAllThresholds = ''GOOD'', metrics = \<lparr>lcp = 9000, fid = 500, cls = 1 / 2\<rparr>\<rparr> 7 (exec [] init)))) =
     [Registered 7, BadgeOverallPerf ''GOOD'' 7]"
  using non_failing_verdict_ends
    [of "\<lparr>passesAllThresholds = ''GOOD'', metrics = \<lparr>lcp = 9000, fid = 500, cls = 1 / 2\<rparr>\<rparr>" "[]" 7
        "[TimerFired 0, TabsGetCallback 0 None]"]
  by (simp add: init_def animateBadges_def emit_def suspend_def Let_def)


lemma stale_wakeup:
  assumes "consistent s" "f \<in> set (frames s)" "f_pc f \<noteq> Await_doesTabExist"
    "animationsByTabId s (f_tabId f) \<noteq> Some (f_animationId f)"
  shows "step (TimerFired (f_animationId f)) s = s\<lparr>frames := remove1 f (frames s)\<rparr>"
  using assms(3,4) unfolding step_TimerFired [OF assms(1,2,3)]
  by (cases "f_pc f") (simp_all add: after_wait_def Let_def)

lemma current_wakeup_lcp:
  assumes "consistent s" "f \<in> set (frames s)" "f_pc f = Wait_lcp"
    "animationsByTabId s (f_tabId f) = Some (f_animationId f)"
  shows "trace (step (TimerFired (f_animationId f)) s) =
           trace s @ [(f_animationId f, BadgeMetric ''lcp'' (lcp (metrics (f_request f))) (f_tabId f)),
                      (f_animationId f, Wait delay)]"
    and "frames (step (TimerFired (f_animationId f)) s) =
           remove1 f (frames s) @ [f\<lparr>f_pc := Wait_fid\<rparr>]"
    and "animationsByTabId (step (TimerFired (f_animationId f)) s) = animationsByTabId s"
    and "globalAnimationId (step (TimerFired (f_animationId f)) s) = globalAnimationId s"
  using assms(3,4) step_TimerFired [OF assms(1,2)]
  by (simp_all add: after_wait_def Let_def)

lemma current_wakeup_fid:
  assumes "consistent s" "f \<in> set (frames s)" "f_pc f = Wait_fid"
    "animationsByTabId s (f_tabId f) = Some (f_animationId f)"
  shows "trace (step (TimerFired (f_animationId f)) s) =
           trace s @ [(f_animationId f, BadgeMetric ''fid'' (fid (metrics (f_request f))) (f_tabId f)),
                      (f_animationId f, Wait delay)]"
    and "frames (step (TimerFired (f_animationId f)) s) =
           remove1 f (frames s) @ [f\<lparr>f_pc := Wait_cls\<rparr>]"
    and "animationsByTabId (step (TimerFired (f_animationId f)) s) = animationsByTabId s"
    and "globalAnimationId (step (TimerFired (f_animationId f)) s) = globalAnimationId s"
  using assms(3,4) step_TimerFired [OF assms(1,2)]
  by (simp_all add: after_wait_def Let_def)

lemma current_wakeup_cls:
  assumes "consistent s" "f \<in> set (frames s)" "f_pc f = Wait_cls"
    "animationsByTabId s (f_tabId f) = Some (f_animationId f)"
  shows "trace (step (TimerFired (f_animationId f)) s) =
           trace s @ [(f_animationId f, BadgeMetric ''cls'' (cls (metrics (f_request f))) (f_tabId f)),
                      (f_animationId f, Wait delay)]"
    and "frames (step (TimerFired (f_animationId f)) s) =
           remove1 f (frames s) @ [f\<lparr>f_pc := Wait_loop\<rparr>]"
    and "animationsByTabId (step (TimerFired (f_animationId f)) s) = animationsByTabId s"
    and "globalAnimationId (step (TimerFired (f_animationId f)) s) = globalAnimationId s"
  using assms(3,4) step_TimerFired [OF assms(1,2)]
  by (simp_all add: after_wait_def Let_def)

lemma current_wakeup_loop:
  assumes "consistent s" "f \<in> set (frames s)" "f_pc f = Wait_loop"
    "animationsByTabId s (f_tabId f) = Some (f_animationId f)"
  shows "trace (step (TimerFired (f_animationId f)) s) =
           trace s @ [(f_animationId f, DoesTabExist (f_tabId f))]"
    and "frames (step (TimerFired (f_animationId f)) s) =
           remove1 f (frames s) @ [f\<lparr>f_pc := Await_doesTabExist\<rparr>]"
    and "animationsByTabId (step (TimerFired (f_animationId f)) s) = animationsByTabId s"
    and "globalAnimationId (step (TimerFired (f_animationId f)) s) = globalAnimationId s"
  using assms(3,4) step_TimerFired [OF assms(1,2)]
  by (simp_all add: after_wait_def Let_def)

lemma superseded_wakeup:
  assumes c: "consistent s" and f: "f \<in> set (frames s)" and pc: "f_pc f \<noteq> Await_doesTabExist"
    and cur: "animationsByTabId s (f_tabId f) = Some (f_animationId f)"
  shows "trace (step (TimerFired (f_animationId f)) (animateBadges request' (f_tabId f) s)) =
           trace (animateBadges request' (f_tabId f) s) \<and>
         f_animationId f \<notin>
           f_animationId ` set (frames (step (TimerFired (f_animationId f))
             (animateBadges request' (f_tabId f) s)))"
proof -
  let ?s = "animateBadges request' (f_tabId f) s"
  have c': "consistent ?s" using c by (rule consistent_animateBadges)
  have f': "f \<in> set (frames ?s)" using f by (simp add: animateBadges_sel)
  have "f_animationId f < globalAnimationId s" using c f by (simp add: consistent_def)
  then have ne: "animationsByTabId ?s (f_tabId f) \<noteq> Some (f_animationId f)"
    by (simp add: animateBadges_sel)
  show ?thesis
    unfolding stale_wakeup [OF c' f' pc ne] using fresh_after_remove1 [OF c' f'] by simp
qed


lemma solo_round:
  assumes poor: "passesAllThresholds request = ''POOR''"
  shows "let s = exec es init; a = globalAnimationId s; m = metrics request in
     trace (exec [Message request tabId, TimerFired a, TimerFired a, TimerFired a, TimerFired a,
                  TabsGetCallback a None] s) =
       trace s @
         [(a, Registered tabId), (a, BadgeOverallPerf ''POOR'' tabId), (a, Wait 2000),
          (a, BadgeMetric ''lcp'' (lcp m) tabId), (a, Wait 2000),
          (a, BadgeMetric ''fid'' (fid m) tabId), (a, Wait 2000),
          (a, BadgeMetric ''cls'' (cls m) tabId), (a, Wait 2000),
          (a, DoesTabExist tabId),
          (a + 1, Registered tabId), (a + 1, BadgeOverallPerf ''POOR'' tabId),
          (a + 1, Wait 2000)] \<and>
     (\<forall>k < 4.
        let s1 = exec (Message request tabId # replicate k (TimerFired a)) s;
            s2 = step (Message request' tabId) s1;
            s3 = step (TimerFired a) s2
        in trace s3 = trace s2 \<and> a \<notin> f_animationId ` set (frames s3))"
proof -
  define s where "s = exec es init"
  define a where "a = globalAnimationId s"
  define f0 where "f0 = \<lparr>f_request = request, f_tabId = tabId, f_animationId = a, f_pc = Wait_lcp\<rparr>"
  define s1 where "s1 = step (Message request tabId) s"
  define s2 where "s2 = step (TimerFired a) s1"
  define s3 where "s3 = step (TimerFired a) s2"
  define s4 where "s4 = step (TimerFired a) s3"
  define s5 where "s5 = step (TimerFired a) s4"
  define s6 where "s6 = step (TabsGetCallback a None) s5"
  have c: "consistent s" using reachable_ok [of es] by (simp add: s_def)
  have c1: "consistent s1" unfolding s1_def using c by (rule consistent_step)
  have c2: "consistent s2" unfolding s2_def using c1 by (rule consistent_step)
  have c3: "consistent s3" unfolding s3_def using c2 by (rule consistent_step)
  have c4: "consistent s4" unfolding s4_def using c3 by (rule consistent_step)
  have c5: "consistent s5" unfolding s5_def using c4 by (rule consistent_step)
  have id0 [simp]: "f_animationId f0 = a" "f_tabId f0 = tabId" "f_request f0 = request"
    by (simp_all add: f0_def)
  \<comment> \<open>the call up to its first \<open>await\<close>\<close>
  have t1: "trace s1 = trace s @ [(a, Registered tabId), (a, BadgeOverallPerf ''POOR'' tabId),
      (a, Wait delay)]"
    and f1: "f0 \<in> set (frames s1)"
    and m1: "animationsByTabId s1 tabId = Some a"
    and g1: "globalAnimationId s1 = a + 1"
    using poor by (simp_all add: s1_def animateBadges_sel a_def f0_def)
  \<comment> \<open>after the first \<open>wait\<close>\<close>
  have p0: "f_pc f0 = Wait_lcp" by (simp add: f0_def)
  have m1': "animationsByTabId s1 (f_tabId f0) = Some (f_animationId f0)" using m1 by simp
  have w1: "trace s2 = trace s1 @ [(a, BadgeMetric ''lcp'' (lcp (metrics request)) tabId), (a, Wait delay)]"
    "frames s2 = remove1 f0 (frames s1) @ [f0\<lparr>f_pc := Wait_fid\<rparr>]"
    "animationsByTabId s2 = animationsByTabId s1" "globalAnimationId s2 = globalAnimationId s1"
    using current_wakeup_lcp [OF c1 f1 p0 m1'] by (simp_all add: s2_def)
  have f2: "f0\<lparr>f_pc := Wait_fid\<rparr> \<in> set (frames s2)" by (simp add: w1(2))
  have p2: "f_pc (f0\<lparr>f_pc := Wait_fid\<rparr>) = Wait_fid" by simp
  have m2: "animationsByTabId s2 (f_tabId (f0\<lparr>f_pc := Wait_fid\<rparr>)) = Some (f_animationId (f0\<lparr>f_pc := Wait_fid\<rparr>))"
    by (simp add: w1(3) m1)
  have w2: "trace s3 = trace s2 @ [(a, BadgeMetric ''fid'' (fid (metrics request)) tabId), (a, Wait delay)]"
    "frames s3 = remove1 (f0\<lparr>f_pc := Wait_fid\<rparr>) (frames s2) @ [f0\<lparr>f_pc := Wait_cls\<rparr>]"
    "animationsByTabId s3 = animationsByTabId s2" "globalAnimationId s3 = globalAnimationId s2"
    using current_wakeup_fid [OF c2 f2 p2 m2] by (simp_all add: s3_def)
  have f3: "f0\<lparr>f_pc := Wait_cls\<rparr> \<in> set (frames s3)" by (simp add: w2(2))
  have p3: "f_pc (f0\<lparr>f_pc := Wait_cls\<rparr>) = Wait_cls" by simp
  have m3: "animationsByTabId s3 (f_tabId (f0\<lparr>f_pc := Wait_cls\<rparr>)) = Some (f_animationId (f0\<lparr>f_pc := Wait_cls\<rparr>))"
    by (simp add: w2(3) w1(3) m1)
  have w3: "trace s4 = trace s3 @ [(a, BadgeMetric ''cls'' (cls (metrics request)) tabId), (a, Wait delay)]"
    "frames s4 = remove1 (f0\<lparr>f_pc := Wait_cls\<rparr>) (frames s3) @ [f0\<lparr>f_pc := Wait_loop\<rparr>]"
    "animationsByTabId s4 = animationsByTabId s3" "globalAnimationId s4 = globalAnimationId s3"
    using current_wakeup_cls [OF c3 f3 p3 m3] by (simp_all add: s4_def)
  have f4: "f0\<lparr>f_pc := Wait_loop\<rparr> \<in> set (frames s4)" by (simp add: w3(2))
  have p4: "f_pc (f0\<lparr>f_pc := Wait_loop\<rparr>) = Wait_loop" by simp
  have m4: "animationsByTabId s4 (f_tabId (f0\<lparr>f_pc := Wait_loop\<rparr>)) = Some (f_animationId (f0\<lparr>f_pc := Wait_loop\<rparr>))"
    by (simp add: w3(3) w2(3) w1(3) m1)
  have w4: "trace s5 = trace s4 @ [(a, DoesTabExist tabId)]"
    "frames s5 = remove1 (f0\<lparr>f_pc := Wait_loop\<rparr>) (frames s4) @ [f0\<lparr>f_pc := Await_doesTabExist\<rparr>]"
    "animationsByTabId s5 = animationsByTabId s4" "globalAnimationId s5 = globalAnimationId s4"
    using current_wakeup_loop [OF c4 f4 p4 m4] by (simp_all add: s5_def)
  have f5: "f0\<lparr>f_pc := Await_doesTabExist\<rparr> \<in> set (frames s5)" by (simp add: w4(2))
  have g5: "globalAnimationId s5 = a + 1" by (simp add: w4(4) w3(4) w2(4) w1(4) g1)
  have "s6 = animateBadges request tabId (s5\<lparr>frames := remove1 (f0\<lparr>f_pc := Await_doesTabExist\<rparr>) (frames s5)\<rparr>)"
    unfolding s6_def
    using step_TabsGetCallback [OF c5 f5, of None]
    by (simp add: after_doesTabExist_def doesTabExist_def)
  then have t6: "trace s6 = trace s5 @ [(a + 1, Registered tabId),
      (a + 1, BadgeOverallPerf ''POOR'' tabId), (a + 1, Wait delay)]"
    using poor by (simp add: animateBadges_sel g5)
  have part1: "trace s6 = trace s @
         [(a, Registered tabId), (a, BadgeOverallPerf ''POOR'' tabId), (a, Wait 2000),
          (a, BadgeMetric ''lcp'' (lcp (metrics request)) tabId), (a, Wait 2000),
          (a, BadgeMetric ''fid'' (fid (metrics request)) tabId), (a, Wait 2000),
          (a, BadgeMetric ''cls'' (cls (metrics request)) tabId), (a, Wait 2000),
          (a, DoesTabExist tabId),
          (a + 1, Registered tabId), (a + 1, BadgeOverallPerf ''POOR'' tabId),
          (a + 1, Wait 2000)]"
    by (simp add: t6 w4(1) w3(1) w2(1) w1(1) t1 delay_def)
  have e6: "exec [Message request tabId, TimerFired a, TimerFired a, TimerFired a, TimerFired a,
                  TabsGetCallback a None] s = s6"
    by (simp add: s6_def s5_def s4_def s3_def s2_def s1_def)
  \<comment> \<open>a newer call for the tab, registered during one of the four waits\<close>
  have q1: "trace (step (TimerFired a) (step (Message request' tabId) s1)) =
              trace (step (Message request' tabId) s1) \<and>
            a \<notin> f_animationId ` set (frames (step (TimerFired a) (step (Message request' tabId) s1)))"
    using superseded_wakeup [OF c1 f1 _ m1', of request'] p0 by simp
  have q2: "trace (step (TimerFired a) (step (Message request' tabId) s2)) =
              trace (step (Message request' tabId) s2) \<and>
            a \<notin> f_animationId ` set (frames (step (TimerFired a) (step (Message request' tabId) s2)))"
    using superseded_wakeup [OF c2 f2 _ m2, of request'] by simp
  have q3: "trace (step (TimerFired a) (step (Message request' tabId) s3)) =
              trace (step (Message request' tabId) s3) \<and>
            a \<notin> f_animationId ` set (frames (step (TimerFired a) (step (Message request' tabId) s3)))"
    using superseded_wakeup [OF c3 f3 _ m3, of request'] by simp
  have q4: "trace (step (TimerFired a) (step (Message request' tabId) s4)) =
              trace (step (Message request' tabId) s4) \<and>
            a \<notin> f_animationId ` set (frames (step (TimerFired a) (step (Message request' tabId) s4)))"
    using superseded_wakeup [OF c4 f4 _ m4, of request'] by simp
  have part2: "\<forall>k < 4.
        let t1 = exec (Message request tabId # replicate k (TimerFired a)) s;
            t2 = step (Message request' tabId) t1;
            t3 = step (TimerFired a) t2
        in trace t3 = trace t2 \<and> a \<notin> f_animationId ` set (frames t3)"
  proof (intro allI impI)
    fix k :: nat
    assume "k < 4"
    then consider "k = 0" | "k = 1" | "k = 2" | "k = 3" by linarith
    then show "let t1 = exec (Message request tabId # replicate k (TimerFired a)) s;
            t2 = step (Message request' tabId) t1;
            t3 = step (TimerFired a) t2
        in trace t3 = trace t2 \<and> a \<notin> f_animationId ` set (frames t3)"
    proof cases
      case 1
      with q1 show ?thesis by (simp add: s1_def)
    next
      case 2
      with q2 show ?thesis by (simp add: s2_def s1_def)
    next
      case 3
      with q3 show ?thesis by (simp add: s3_def s2_def s1_def numeral_2_eq_2)
    next
      case 4
      with q4 show ?thesis by (simp add: s4_def s3_def s2_def s1_def numeral_3_eq_3)
    qed
  qed
  from part1 have final1: "trace (exec [Message request tabId, TimerFired a, TimerFired a,
      TimerFired a, TimerFired a, TabsGetCallback a None] s) = trace s @
         [(a, Registered tabId), (a, BadgeOverallPerf ''POOR'' tabId), (a, Wait 2000),
          (a, BadgeMetric ''lcp'' (lcp (metrics request)) tabId), (a, Wait 2000),
          (a, BadgeMetric ''fid'' (fid (metrics request)) tabId), (a, Wait 2000),
          (a, BadgeMetric ''cls'' (cls (metrics request)) tabId), (a, Wait 2000),
          (a, DoesTabExist tabId),
          (a + 1, Registered tabId), (a + 1, BadgeOverallPerf ''POOR'' tabId),
          (a + 1, Wait 2000)]"
    unfolding e6 .
  from final1 part2 show ?thesis
    unfolding Let_def s_def [symmetric] a_def [symmetric] by blast
qed

lemma same_id_same_frame:
  "consistent s \<Longrightarrow> f \<in> set (frames s) \<Longrightarrow> g \<in> set (frames s) \<Longrightarrow>
   f_animationId g = f_animationId f \<Longrightarrow> g = f"
  by (auto simp: consistent_def distinct_map dest: inj_onD)

lemma after_wait_advance:
  assumes b: "by_call (f_animationId f) (trace s) =
             take (calls_made (f_pc f)) (round_calls (f_request f) (f_tabId f))"
    and n: "f_animationId f \<notin> f_animationId ` set (frames s)"
  shows "in_order (f_request f) (f_tabId f) (f_animationId f) (after_wait f s)"
proof (cases "animationsByTabId s (f_tabId f) = Some (f_animationId f) \<and> f_pc f \<noteq> Await_doesTabExist")
  case False
  then have "after_wait f s = s"
    by (cases "f_pc f") (auto simp: after_wait_def Let_def)
  with b n show ?thesis
    unfolding in_order_def by auto
next
  case True
  then show ?thesis
    using b
    by (cases "f_pc f")
       (simp_all add: in_order_def after_wait_def Let_def round_calls_def numeral_eq_Suc)
qed

lemma in_order_step:
  assumes c: "consistent s" and a: "a < globalAnimationId s" and o: "in_order r T a s"
  shows "in_order r T a (step e s)"
proof (cases "a \<in> f_animationId ` set (frames s)")
  case False
  with o obtain n where n: "by_call a (trace s) = take n (round_calls r T)"
    by (auto simp: in_order_def)
  from silent_step [OF c a False, of e] n show ?thesis
    by (auto simp: in_order_def)
next
  case True
  with o obtain f where f: "f \<in> set (frames s)" "f_animationId f = a" "f_request f = r"
      "f_tabId f = T" "by_call a (trace s) = take (calls_made (f_pc f)) (round_calls r T)"
    by (auto simp: in_order_def)
  have gone: "a \<notin> f_animationId ` set (remove1 f (frames s))"
    using fresh_after_remove1 [OF c f(1)] f(2) by simp
  have keep: "in_order r T a s'"
    if "f \<in> set (frames s')" "by_call a (trace s') = by_call a (trace s)" for s'
    using that f by (auto simp: in_order_def)
  have other: "in_order r T a (after_wait g (s\<lparr>frames := remove1 g (frames s)\<rparr>))"
    if g: "g \<in> set (frames s)" "g \<noteq> f" for g
  proof -
    have ne: "a \<noteq> f_animationId g"
      using same_id_same_frame [OF c f(1) g(1)] g(2) f(2) by auto
    have "f \<in> set (remove1 g (frames s))" using f(1) g(2) by simp
    moreover have "set (remove1 g (frames s)) \<subseteq> set (frames (after_wait g (s\<lparr>frames := remove1 g (frames s)\<rparr>)))"
      by (cases "f_pc g") (auto simp: after_wait_def Let_def)
    ultimately have "f \<in> set (frames (after_wait g (s\<lparr>frames := remove1 g (frames s)\<rparr>)))" by blast
    then show ?thesis
      by (rule keep) (simp add: after_wait_by_call [OF ne])
  qed
  show ?thesis
  proof (cases e)
    case (Message request tabId)
    have "a \<noteq> globalAnimationId s" using a by simp
    then have "by_call a (trace (step e s)) = by_call a (trace s)"
      by (simp add: Message animateBadges_sel)
    moreover have "f \<in> set (frames (step e s))"
      using f(1) by (simp add: Message animateBadges_sel)
    ultimately show ?thesis by (intro keep)
  next
    case (TimerFired b)
    show ?thesis
    proof (cases "find (\<lambda>g. f_animationId g = b \<and> f_pc g \<noteq> Await_doesTabExist) (frames s)")
      case None
      with TimerFired f show ?thesis by (intro keep) simp_all
    next
      case (Some g)
      have g: "g \<in> set (frames s)" using find_frame_in [OF Some] by simp
      show ?thesis
      proof (cases "g = f")
        case True
        have "in_order (f_request f) (f_tabId f) (f_animationId f)
                (after_wait f (s\<lparr>frames := remove1 f (frames s)\<rparr>))"
          using f(2,3,4,5) gone by (intro after_wait_advance) simp_all
        with TimerFired Some True f show ?thesis by simp
      next
        case False
        from other [OF g False] TimerFired Some show ?thesis by simp
      qed
    qed
  next
    case (TabsGetCallback b lastError)
    show ?thesis
    proof (cases "find (\<lambda>g. f_animationId g = b \<and> f_pc g = Await_doesTabExist) (frames s)")
      case None
      with TabsGetCallback f show ?thesis by (intro keep) simp_all
    next
      case (Some g)
      have g: "g \<in> set (frames s)" using find_frame_in [OF Some] by simp
      have st: "step e s = after_doesTabExist g (doesTabExist lastError) (s\<lparr>frames := remove1 g (frames s)\<rparr>)"
        using TabsGetCallback Some by simp
      have ne: "a \<noteq> globalAnimationId s" using a by simp
      show ?thesis
      proof (cases "g = f")
        case True
        have "by_call a (trace (step e s)) = by_call a (trace s)"
          using ne by (simp add: st after_doesTabExist_def animateBadges_sel)
        moreover have "a \<notin> f_animationId ` set (frames (step e s))"
          using gone ne True by (auto simp: st after_doesTabExist_def animateBadges_sel)
        ultimately show ?thesis
          using f(5) by (auto simp: in_order_def)
      next
        case False
        have "f \<in> set (frames (step e s))"
          using f(1) False by (simp add: st after_doesTabExist_def animateBadges_sel)
        moreover have "by_call a (trace (step e s)) = by_call a (trace s)"
          using ne by (simp add: st after_doesTabExist_def animateBadges_sel)
        ultimately show ?thesis by (intro keep)
      qed
    qed
  qed
qed

lemma in_order_exec:
  assumes "consistent s" "a < globalAnimationId s" "in_order r T a s"
  shows "in_order r T a (exec es s)"
  using assms
proof (induction es arbitrary: s)
  case Nil
  then show ?case by simp
next
  case (Cons e es)
  have "a < globalAnimationId (step e s)"
    using Cons.prems(2) step_counter_mono [of s e] by simp
  with Cons.IH [of "step e s"] consistent_step [OF Cons.prems(1), of e]
    in_order_step [OF Cons.prems, of e]
  show ?case by simp
qed

lemma in_order_start:
  assumes "consistent s" "passesAllThresholds request = ''POOR''"
  shows "in_order request tabId (globalAnimationId s) (animateBadges request tabId s)"
proof -
  have "by_call (globalAnimationId s) (trace s) = []"
    using assms(1) by (auto simp: consistent_def by_call_def filter_empty_conv)
  then show ?thesis
    using assms(2)
    by (simp add: in_order_def animateBadges_sel round_calls_def numeral_eq_Suc)
qed


text \<open>
  C4. The calls of one round of a call with verdict \<open>POOR\<close> are, in the order of the
  source: the overall badge, then for \<open>lcp\<close>, \<open>fid\<close> and \<open>cls\<close> in this order a wait of
  2000 ms followed by the call of \<open>badgeMetric\<close> for that metric, then one more wait of
  2000 ms and the liveness check of the tab. A call that nothing interrupts makes them
  all and then starts the next round, with the overall badge again. Whatever else runs
  in between, the calls logged for it are always the first ones of this list, in this
  order. The generation is checked after each of the four waits, before anything else
  is done: when a newer call for the tab has registered during the wait, the woken call
  does nothing and is gone.
\<close>

theorem failing_cycle_order:
  assumes poor: "passesAllThresholds request = ''POOR''"
  shows "let s = exec es init; a = globalAnimationId s; m = metrics request;
             round = [Registered tabId, BadgeOverallPerf ''POOR'' tabId, Wait 2000,
                      BadgeMetric ''lcp'' (lcp m) tabId, Wait 2000,
                      BadgeMetric ''fid'' (fid m) tabId, Wait 2000,
                      BadgeMetric ''cls'' (cls m) tabId, Wait 2000,
                      DoesTabExist tabId] in
     round_calls request tabId = round \<and>
     trace (exec [Message request tabId, TimerFired a, TimerFired a, TimerFired a, TimerFired a,
                  TabsGetCallback a None] s) =
       trace s @ map (Pair a) round @
         [(a + 1, Registered tabId), (a + 1, BadgeOverallPerf ''POOR'' tabId),
          (a + 1, Wait 2000)] \<and>
     (\<exists>n. by_call a (trace (exec es' (step (Message request tabId) s))) = take n round) \<and>
     (\<forall>k < 4.
        let s1 = exec (Message request tabId # replicate k (TimerFired a)) s;
            s2 = step (Message request' tabId) s1;
            s3 = step (TimerFired a) s2
        in trace s3 = trace s2 \<and> a \<notin> f_animationId ` set (frames s3))"
proof -
  define s where "s = exec es init"
  define a where "a = globalAnimationId s"
  have c: "consistent s" using reachable_ok [of es] by (simp add: s_def)
  have r: "round_calls request tabId =
      [Registered tabId, BadgeOverallPerf ''POOR'' tabId, Wait 2000,
       BadgeMetric ''lcp'' (lcp (metrics request)) tabId, Wait 2000,
       BadgeMetric ''fid'' (fid (metrics request)) tabId, Wait 2000,
       BadgeMetric ''cls'' (cls (metrics request)) tabId, Wait 2000,
       DoesTabExist tabId]"
    using poor by (simp add: round_calls_def delay_def)
  have c1: "consistent (step (Message request tabId) s)" using c by (rule consistent_step)
  have lt: "a < globalAnimationId (step (Message request tabId) s)"
    by (simp add: a_def animateBadges_sel)
  have "in_order request tabId a (step (Message request tabId) s)"
    unfolding a_def using in_order_start [OF c poor, of tabId] by simp
  from in_order_exec [OF c1 lt this, of es']
  have ord: "\<exists>n. by_call a (trace (exec es' (step (Message request tabId) s))) =
      take n (round_calls request tabId)"
    by (auto simp: in_order_def)
  from solo_round [OF poor, of es tabId request'] ord r
  show ?thesis
    unfolding Let_def s_def [symmetric] a_def [symmetric]
    by simp
qed
theorem failing_cycle_order_witness:
  "''POOR'' = ''POOR'' \<and>
   trace (exec [Message \<lparr>passesAllThresholds = ''POOR'', metrics = \<lparr>lcp = 3000, fid = 50, cls = 1 / 20\<rparr>\<rparr> 7,
                TimerFired 0, TimerFired 0, TimerFired 0, TimerFired 0, TabsGetCallback 0 None] init) =
     [(0, Registered 7), (0, BadgeOverallPerf ''POOR'' 7), (0, Wait 2000),
      (0, BadgeMetric ''lcp'' 3000 7), (0, Wait 2000),
      (0, BadgeMetric ''fid'' 50 7), (0, Wait 2000),
      (0, BadgeMetric ''cls'' (1 / 20) 7), (0, Wait 2000),
      (0, DoesTabExist 7),
      (1, Registered 7), (1, BadgeOverallPerf ''POOR'' 7), (1, Wait 2000)] \<and>
   by_call 0 (trace (exec [TimerFired 0, Message \<lparr>passesAllThresholds = ''GOOD'', metrics = \<lparr>lcp = 1000, fid = 50, cls = 1 / 20\<rparr>\<rparr> 8, TimerFired 0]
     (step (Message \<lparr>passesAllThresholds = ''POOR'', metrics = \<lparr>lcp = 3000, fid = 50, cls = 1 / 20\<rparr>\<rparr> 7) init))) =
     [Registered 7, BadgeOverallPerf ''POOR'' 7, Wait 2000,
      BadgeMetric ''lcp'' 3000 7, Wait 2000, BadgeMetric ''fid'' 50 7, Wait 2000] \<and>
   trace (exec [Message \<lparr>passesAllThresholds = ''POOR'', metrics = \<lparr>lcp = 3000, fid = 50, cls = 1 / 20\<rparr>\<rparr> 7,
                TimerFired 0,
                Message \<lparr>passesAllThresholds = ''GOOD'', metrics = \<lparr>lcp = 1000, fid = 50, cls = 1 / 20\<rparr>\<rparr> 7,
                TimerFired 0] init) =
     [(0, Registered 7), (0, BadgeOverallPerf ''POOR'' 7), (0, Wait 2000),
      (0, BadgeMetric ''lcp'' 3000 7), (0, Wait 2000),
      (1, Registered 7), (1, BadgeOverallPerf ''GOOD'' 7)]"
  using failing_cycle_order
    [of "\<lparr>passesAllThresholds = ''POOR'', metrics = \<lparr>lcp = 3000, fid = 50, cls = 1 / 20\<rparr>\<rparr>" "[]" 7
        "[TimerFired 0, Message \<lparr>passesAllThresholds = ''GOOD'', metrics = \<lparr>lcp = 1000, fid = 50, cls = 1 / 20\<rparr>\<rparr> 8, TimerFired 0]"
        "\<lparr>passesAllThresholds = ''GOOD'', metrics = \<lparr>lcp = 1000, fid = 50, cls = 1 / 20\<rparr>\<rparr>"]
  by (simp add: init_def animateBadges_def after_wait_def after_doesTabExist_def doesTabExist_def
      emit_def suspend_def Let_def delay_def)

section \<open>The tab is gone\<close>

text \<open>
  C7. A call that stands at \<open>await doesTabExist(tabId)\<close> was started with verdict \<open>POOR\<close>.
  When the lookup of the tab fails, \<open>chrome.runtime.lastError\<close> is set and \<open>doesTabExist\<close>
  resolves to \<open>false\<close>, a value and no exception; the call then returns: the state is
  the one before without the suspended call, so nothing is rendered, written or
  scheduled, and whatever runs later, nothing more is ever done under the call's
  \<open>animationId\<close>.
\<close>

theorem tab_gone_halts:
  assumes "f \<in> set (frames (exec es init))" "f_pc f = Await_doesTabExist" "lastError \<noteq> None"
  shows "let s = exec es init; a = f_animationId f; s' = step (TabsGetCallback a lastError) s in
     \<not> doesTabExist lastError \<and>
     passesAllThresholds (f_request f) = ''POOR'' \<and>
     s' = s\<lparr>frames := remove1 f (frames s)\<rparr> \<and>
     by_call a (trace (exec es' s')) = by_call a (trace s) \<and>
     a \<notin> f_animationId ` set (frames (exec es' s'))"
proof -
  define s where "s = exec es init"
  define s' where "s' = step (TabsGetCallback (f_animationId f) lastError) s"
  have c: "consistent s" using reachable_ok [of es] by (simp add: s_def)
  have f: "f \<in> set (frames s)" using assms(1) by (simp add: s_def)
  have no: "\<not> doesTabExist lastError" using assms(3) by (simp add: doesTabExist_def)
  have eq: "s' = s\<lparr>frames := remove1 f (frames s)\<rparr>"
    unfolding s'_def step_TabsGetCallback [OF c f assms(2)] using no
    by (simp add: after_doesTabExist_def)
  have c': "consistent s'" unfolding eq using c by (rule consistent_remove1)
  have lt: "f_animationId f < globalAnimationId s'"
    and poor: "passesAllThresholds (f_request f) = ''POOR''"
    using c f by (simp_all add: eq consistent_def)
  have fresh: "f_animationId f \<notin> f_animationId ` set (frames s')"
    using fresh_after_remove1 [OF c f] by (simp add: eq)
  have "trace s' = trace s" by (simp add: eq)
  with silent_exec [OF c' lt fresh, of es'] no poor eq
  show ?thesis
    unfolding Let_def s_def [symmetric] s'_def [symmetric] by simp
qed

theorem tab_gone_halts_witness:
  "\<lparr>f_request = \<lparr>passesAllThresholds = ''POOR'', metrics = \<lparr>lcp = 3000, fid = 50, cls = 1 / 20\<rparr>\<rparr>,
     f_tabId = 7, f_animationId = 0, f_pc = Await_doesTabExist\<rparr>
     \<in> set (frames (exec [Message \<lparr>passesAllThresholds = ''POOR'', metrics = \<lparr>lcp = 3000, fid = 50, cls = 1 / 20\<rparr>\<rparr> 7,
                TimerFired 0, TimerFired 0, TimerFired 0, TimerFired 0] init)) \<and>
   Some ''No tab with id: 7.'' \<noteq> None \<and>
   \<not> doesTabExist (Some ''No tab with id: 7.'') \<and>
   frames (step (TabsGetCallback 0 (Some ''No tab with id: 7.''))
     (exec [Message \<lparr>passesAllThresholds = ''POOR'', metrics = \<lparr>lcp = 3000, fid = 50, cls = 1 / 20\<rparr>\<rparr> 7,
                TimerFired 0, TimerFired 0, TimerFired 0, TimerFired 0] init)) = [] \<and>
   trace (exec [TimerFired 0, TabsGetCallback 0 None]
     (step (TabsGetCallback 0 (Some ''No tab with id: 7.''))
       (exec [Message \<lparr>passesAllThresholds = ''POOR'', metrics = \<lparr>lcp = 3000, fid = 50, cls = 1 / 20\<rparr>\<rparr> 7,
                TimerFired 0, TimerFired 0, TimerFired 0, TimerFired 0] init))) =
   trace (exec [Message \<lparr>passesAllThresholds = ''POOR'', metrics = \<lparr>lcp = 3000, fid = 50, cls = 1 / 20\<rparr>\<rparr> 7,
                TimerFired 0, TimerFired 0, TimerFired 0, TimerFired 0] init)"
  using tab_gone_halts
    [of "\<lparr>f_request = \<lparr>passesAllThresholds = ''POOR'', metrics = \<lparr>lcp = 3000, fid = 50, cls = 1 / 20\<rparr>\<rparr>,
           f_tabId = 7, f_animationId = 0, f_pc = Await_doesTabExist\<rparr>"
        "[Message \<lparr>passesAllThresholds = ''POOR'', metrics = \<lparr>lcp = 3000, fid = 50, cls = 1 / 20\<rparr>\<rparr> 7,
                TimerFired 0, TimerFired 0, TimerFired 0, TimerFired 0]"
        "Some ''No tab with id: 7.''" "[TimerFired 0, TabsGetCallback 0 None]"]
  by (simp add: init_def animateBadges_def after_wait_def after_doesTabExist_def doesTabExist_def
      emit_def suspend_def Let_def delay_def)

section \<open>A newer call during the liveness check\<close>

text \<open>
  C1. The last of the generation checks of a round comes before \<open>await doesTabExist\<close>.
  Here a call for tab 7 with verdict \<open>POOR\<close> has passed that check and waits for the
  answer of \<open>chrome.tabs.get\<close>; a message with verdict \<open>GOOD\<close> for the same tab arrives and
  call 1 registers and renders; then the answer arrives, and the old call starts its
  next round with \<open>animateBadges(request, tabId)\<close>, which registers generation 2 over
  generation 1. After call 1 has registered, the log holds the overall badge and two
  metric badges of the old request and the rounds go on: the table names generation 2
  and the suspended call carries the old request.
\<close>

theorem stale_call_survives_tab_check:
  "let s = exec [Message \<lparr>passesAllThresholds = ''POOR'',
                          metrics = \<lparr>lcp = 3000, fid = 150, cls = 1 / 4\<rparr>\<rparr> 7,
                 TimerFired 0, TimerFired 0, TimerFired 0, TimerFired 0,
                 Message \<lparr>passesAllThresholds = ''GOOD'',
                          metrics = \<lparr>lcp = 1000, fid = 50, cls = 1 / 20\<rparr>\<rparr> 7,
                 TabsGetCallback 0 None, TimerFired 2, TimerFired 2] init
   in drop 10 (trace s) =
        [(1, Registered 7), (1, BadgeOverallPerf ''GOOD'' 7),
         (2, Registered 7), (2, BadgeOverallPerf ''POOR'' 7), (2, Wait 2000),
         (2, BadgeMetric ''lcp'' 3000 7), (2, Wait 2000),
         (2, BadgeMetric ''fid'' 150 7), (2, Wait 2000)] \<and>
      animationsByTabId s 7 = Some 2 \<and>
      map f_animationId (frames s) = [2] \<and>
      map (passesAllThresholds \<circ> f_request) (frames s) = [''POOR'']"
  by (simp add: init_def animateBadges_def after_wait_def after_doesTabExist_def doesTabExist_def
      emit_def suspend_def Let_def delay_def)

section \<open>What the renderer shows\<close>

lemma render_Nil [simp]: "render (Inr []) st = st"
  by (simp add: render_def)

lemma render_Inl [simp]: "render (Inl e) st = st"
  by (simp add: render_def)

lemma badgeMetric_lcp:
  "currentTab_of tabid tabs = Inr t \<Longrightarrow>
   badgeMetric ''lcp'' v tabid tabs =
     (if LCP_THRESHOLD < v then
        Inr [SetIcon ''../../icons/slow128w-lcp.png'' t, SetBadgeBackgroundColor ''#000'' t,
             SetBadgeText (toFixed (fdiv v 1000) 2) t]
      else Inr [])"
  by (simp add: badgeMetric_def Let_def not_less)

lemma badgeMetric_fid:
  "currentTab_of tabid tabs = Inr t \<Longrightarrow>
   badgeMetric ''fid'' v tabid tabs =
     (if FID_THRESHOLD < v then
        Inr [SetIcon ''../../icons/slow128w-fid.png'' t, SetBadgeBackgroundColor ''#000'' t,
             SetBadgeText (toFixed v 2) t]
      else Inr [])"
  by (simp add: badgeMetric_def Let_def not_less)

lemma badgeMetric_cls:
  "currentTab_of tabid tabs = Inr t \<Longrightarrow>
   badgeMetric ''cls'' v tabid tabs =
     (if CLS_THRESHOLD < v then
        Inr [SetIcon ''../../icons/slow128w-cls.png'' t, SetBadgeBackgroundColor ''#000'' t,
             SetBadgeText (toFixed v 2) t]
      else Inr [])"
  by (simp add: badgeMetric_def Let_def not_less)

lemma badgeMetric_passing:
  "v \<le> LCP_THRESHOLD \<Longrightarrow> render (badgeMetric ''lcp'' v tabid tabs) st = st"
  "v \<le> FID_THRESHOLD \<Longrightarrow> render (badgeMetric ''fid'' v tabid tabs) st = st"
  "v \<le> CLS_THRESHOLD \<Longrightarrow> render (badgeMetric ''cls'' v tabid tabs) st = st"
  by (simp_all add: badgeMetric_def Let_def split: sum.splits)

text \<open>
  C5. What the callback of \<open>badgeMetric\<close> does for \<open>lcp\<close>, \<open>fid\<close> and \<open>cls\<close>, once its tab is
  found: when the value is above the threshold of the metric (2500, 100, and the Number
  that the literal \<open>0.1\<close> denotes) it sets the icon of the metric, the background \<open>#000\<close>
  and the formatted value as text; otherwise it makes no call at all, and a rendering
  without calls leaves what the browser shows as it was.
\<close>

theorem metric_badge_iff_failing:
  assumes "currentTab_of tabid tabs = Inr t"
  shows "badgeMetric ''lcp'' v tabid tabs =
       (if 2500 < v then
          Inr [SetIcon ''../../icons/slow128w-lcp.png'' t, SetBadgeBackgroundColor ''#000'' t,
               SetBadgeText (toFixed (fdiv v 1000) 2) t]
        else Inr []) \<and>
     badgeMetric ''fid'' v tabid tabs =
       (if 100 < v then
          Inr [SetIcon ''../../icons/slow128w-fid.png'' t, SetBadgeBackgroundColor ''#000'' t,
               SetBadgeText (toFixed v 2) t]
        else Inr []) \<and>
     badgeMetric ''cls'' v tabid tabs =
       (if to_double (1 / 10) < v then
          Inr [SetIcon ''../../icons/slow128w-cls.png'' t, SetBadgeBackgroundColor ''#000'' t,
               SetBadgeText (toFixed v 2) t]
        else Inr []) \<and>
     render (Inr []) st = st"
  using assms
  by (simp add: badgeMetric_lcp badgeMetric_fid badgeMetric_cls LCP_THRESHOLD_def
      FID_THRESHOLD_def CLS_THRESHOLD_def)

lemma digits_small: "n < 10 \<Longrightarrow> digits n = [''0123456789'' ! nat n]"
  by (subst digits.simps) simp

lemma digits_large: "10 \<le> n \<Longrightarrow> digits n = digits (n div 10) @ [''0123456789'' ! nat (n mod 10)]"
  by (subst digits.simps) simp

lemma digits_100:
  assumes "100 \<le> n"
  shows "digits n = digits (n div 100) @
           [''0123456789'' ! nat (n div 10 mod 10), ''0123456789'' ! nat (n mod 10)]"
proof -
  have "10 \<le> n div 10" using assms by linarith
  then have "digits (n div 10) = digits (n div 10 div 10) @ [''0123456789'' ! nat (n div 10 mod 10)]"
    by (rule digits_large)
  moreover have "n div 10 div 10 = n div 100" by (simp add: div_mult2_eq [symmetric])
  moreover have "digits n = digits (n div 10) @ [''0123456789'' ! nat (n mod 10)]"
    using assms by (intro digits_large) simp
  ultimately show ?thesis by simp
qed

lemma digits_nonempty: "digits n \<noteq> []"
  by (subst digits.simps) simp

lemma toFixed_2:
  assumes "0 \<le> x" "x < 10 ^ 21"
  shows "toFixed x 2 =
     Str (digits (\<lfloor>x * 100 + 1 / 2\<rfloor> div 100) @ ''.'' @
          [''0123456789'' ! nat (\<lfloor>x * 100 + 1 / 2\<rfloor> div 10 mod 10),
           ''0123456789'' ! nat (\<lfloor>x * 100 + 1 / 2\<rfloor> mod 10)])"
proof -
  define n where "n = \<lfloor>x * 100 + 1 / 2\<rfloor>"
  have n0: "0 \<le> n" using assms(1) by (simp add: n_def)
  have ax: "\<bar>x\<bar> = x" "\<not> x < 0" "\<not> 10 ^ 21 \<le> x" using assms by (simp_all add: not_le)
  have tf: "toFixed x 2 =
      Str (let m = digits n; k = length m;
               m = (if k \<le> 2 then replicate (3 - k) CHR ''0'' @ m else m);
               k = (if k \<le> 2 then 3 else k)
           in take (k - 2) m @ ''.'' @ drop (k - 2) m)"
    using assms by (simp add: toFixed_def n_def Let_def not_le)
  consider "n < 10" | "10 \<le> n" "n < 100" | "100 \<le> n" by linarith
  then have "(let m = digits n; k = length m;
               m = (if k \<le> 2 then replicate (3 - k) CHR ''0'' @ m else m);
               k = (if k \<le> 2 then 3 else k)
           in take (k - 2) m @ ''.'' @ drop (k - 2) m) =
          digits (n div 100) @ ''.'' @
          [''0123456789'' ! nat (n div 10 mod 10), ''0123456789'' ! nat (n mod 10)]"
  proof cases
    case 1
    with n0 have "n div 100 = 0" "n div 10 = 0" "n mod 10 = n" by simp_all
    with 1 show ?thesis by (simp add: digits_small Let_def numeral_3_eq_3)
  next
    case 2
    with n0 have d: "n div 100 = 0" "n div 10 < 10" "n div 10 mod 10 = n div 10" by simp_all
    with 2 show ?thesis by (simp add: digits_large digits_small Let_def)
  next
    case 3
    have "digits (n div 100) \<noteq> []" by (rule digits_nonempty)
    then have "0 < length (digits (n div 100))" by simp
    with 3 show ?thesis by (simp add: digits_100 Let_def)
  qed
  with tf show ?thesis by (simp add: n_def)
qed

lemma nearest_hundredth: "\<bar>of_int \<lfloor>x * 100 + 1 / 2\<rfloor> / 100 - x\<bar> \<le> 1 / 200" for x :: rat
proof -
  define n where "n = \<lfloor>x * 100 + 1 / 2\<rfloor>"
  have 1: "of_int n \<le> x * 100 + 1 / 2" unfolding n_def by (rule of_int_floor_le)
  have 2: "x * 100 + 1 / 2 < of_int n + 1" unfolding n_def by linarith
  have "of_int n / 100 - x \<le> 1 / 200" using 1 by linarith
  moreover have "- (1 / 200) \<le> of_int n / 100 - x" using 2 by linarith
  ultimately have "\<bar>of_int n / 100 - x\<bar> \<le> 1 / 200" by (simp only: abs_le_iff) simp
  then show ?thesis by (simp only: n_def)
qed


theorem metric_badge_iff_failing_witness:
  "currentTab_of 7 [] = Inr 7 \<and>
   badgeMetric ''lcp'' 3000 7 [] =
     Inr [SetIcon ''../../icons/slow128w-lcp.png'' 7, SetBadgeBackgroundColor ''#000'' 7,
          SetBadgeText (Str ''3.00'') 7] \<and>
   badgeMetric ''fid'' 50 7 [] = Inr [] \<and>
   badgeMetric ''cls'' (to_double (5 / 100)) 7 [] = Inr [] \<and>
   badgeMetric ''cls'' (to_double (1 / 10)) 7 [] = Inr [] \<and>
   badgeMetric ''cls'' (to_double (11 / 100)) 7 [] =
     Inr [SetIcon ''../../icons/slow128w-cls.png'' 7, SetBadgeBackgroundColor ''#000'' 7,
          SetBadgeText (Str ''0.11'') 7]"
proof -
  have e: "toFixed (fdiv 3000 1000) 2 = Str ''3.00''"
    "toFixed (to_double (11 / 100)) 2 = Str ''0.11''"
    "to_double (1 / 10) < to_double (11 / 100)"
    "\<not> to_double (1 / 10) < to_double (5 / 100)"
    by code_simp+
  have t: "currentTab_of 7 [] = Inr 7" by (simp add: currentTab_of_def)
  show ?thesis
    using metric_badge_iff_failing [OF t, of 3000] metric_badge_iff_failing [OF t, of 50]
      metric_badge_iff_failing [OF t, of "to_double (5 / 100)"]
      metric_badge_iff_failing [OF t, of "to_double (1 / 10)"]
      metric_badge_iff_failing [OF t, of "to_double (11 / 100)"] e t
    by simp
qed

text \<open>
  C6, as claimed, fails: the sequencer calls \<open>badgeMetric\<close> for \<open>fid\<close> with the value 50,
  which is not above the threshold 100.
\<close>

theorem sequencer_calls_badgeMetric_unfiltered:
  "(0, BadgeMetric ''fid'' 50 7) \<in>
     set (trace (exec [Message \<lparr>passesAllThresholds = ''POOR'',
                                 metrics = \<lparr>lcp = 3000, fid = 50, cls = 1 / 20\<rparr>\<rparr> 7,
                       TimerFired 0, TimerFired 0] init)) \<and>
   (50 :: rat) \<le> FID_THRESHOLD"
  by (simp add: init_def animateBadges_def after_wait_def emit_def suspend_def Let_def
      FID_THRESHOLD_def delay_def)

text \<open>
  C6, amended. The sequencer does not filter: a call whose generation is current calls
  \<open>badgeMetric\<close> with the value of the request at each of its three metric steps,
  whatever that value is. The filter is in \<open>badgeMetric\<close>: for a value at or below the
  threshold its callback makes no \<open>chrome.action\<close> call, and what the browser shows stays
  as it was.
\<close>

theorem badgeMetric_filters_itself:
  assumes "f \<in> set (frames (exec es init))"
    "animationsByTabId (exec es init) (f_tabId f) = Some (f_animationId f)"
  shows "let s = exec es init; a = f_animationId f; m = metrics (f_request f);
             s' = step (TimerFired a) s in
     (f_pc f = Wait_lcp \<longrightarrow>
        trace s' = trace s @ [(a, BadgeMetric ''lcp'' (lcp m) (f_tabId f)), (a, Wait 2000)]) \<and>
     (f_pc f = Wait_fid \<longrightarrow>
        trace s' = trace s @ [(a, BadgeMetric ''fid'' (fid m) (f_tabId f)), (a, Wait 2000)]) \<and>
     (f_pc f = Wait_cls \<longrightarrow>
        trace s' = trace s @ [(a, BadgeMetric ''cls'' (cls m) (f_tabId f)), (a, Wait 2000)]) \<and>
     (v \<le> LCP_THRESHOLD \<longrightarrow>
        render (badgeMetric ''lcp'' v tabid tabs) st = st \<and>
        (badgeMetric ''lcp'' v tabid tabs = Inr [] \<or> badgeMetric ''lcp'' v tabid tabs = Inl TypeError)) \<and>
     (v \<le> FID_THRESHOLD \<longrightarrow>
        render (badgeMetric ''fid'' v tabid tabs) st = st \<and>
        (badgeMetric ''fid'' v tabid tabs = Inr [] \<or> badgeMetric ''fid'' v tabid tabs = Inl TypeError)) \<and>
     (v \<le> CLS_THRESHOLD \<longrightarrow>
        render (badgeMetric ''cls'' v tabid tabs) st = st \<and>
        (badgeMetric ''cls'' v tabid tabs = Inr [] \<or> badgeMetric ''cls'' v tabid tabs = Inl TypeError))"
proof -
  define s where "s = exec es init"
  have c: "consistent s" using reachable_ok [of es] by (simp add: s_def)
  have f: "f \<in> set (frames s)" and m: "animationsByTabId s (f_tabId f) = Some (f_animationId f)"
    using assms by (simp_all add: s_def)
  have no: "badgeMetric ''lcp'' v tabid tabs = Inr [] \<or> badgeMetric ''lcp'' v tabid tabs = Inl TypeError"
    if "v \<le> LCP_THRESHOLD"
    using that by (simp add: badgeMetric_def Let_def split: sum.splits) (metis exn.exhaust)
  have no': "badgeMetric ''fid'' v tabid tabs = Inr [] \<or> badgeMetric ''fid'' v tabid tabs = Inl TypeError"
    if "v \<le> FID_THRESHOLD"
    using that by (simp add: badgeMetric_def Let_def split: sum.splits) (metis exn.exhaust)
  have no'': "badgeMetric ''cls'' v tabid tabs = Inr [] \<or> badgeMetric ''cls'' v tabid tabs = Inl TypeError"
    if "v \<le> CLS_THRESHOLD"
    using that by (simp add: badgeMetric_def Let_def split: sum.splits) (metis exn.exhaust)
  show ?thesis
    unfolding Let_def s_def [symmetric]
    using current_wakeup_lcp(1) [OF c f _ m] current_wakeup_fid(1) [OF c f _ m]
      current_wakeup_cls(1) [OF c f _ m] no no' no''
    by (simp add: badgeMetric_passing delay_def)
qed

theorem badgeMetric_filters_itself_witness:
  "\<lparr>f_request = \<lparr>passesAllThresholds = ''POOR'', metrics = \<lparr>lcp = 3000, fid = 50, cls = 1 / 20\<rparr>\<rparr>,
     f_tabId = 7, f_animationId = 0, f_pc = Wait_fid\<rparr>
     \<in> set (frames (exec [Message \<lparr>passesAllThresholds = ''POOR'',
                                     metrics = \<lparr>lcp = 3000, fid = 50, cls = 1 / 20\<rparr>\<rparr> 7,
                           TimerFired 0] init)) \<and>
   animationsByTabId (exec [Message \<lparr>passesAllThresholds = ''POOR'',
                                      metrics = \<lparr>lcp = 3000, fid = 50, cls = 1 / 20\<rparr>\<rparr> 7,
                            TimerFired 0] init) 7 = Some 0 \<and>
   trace (step (TimerFired 0)
     (exec [Message \<lparr>passesAllThresholds = ''POOR'',
                      metrics = \<lparr>lcp = 3000, fid = 50, cls = 1 / 20\<rparr>\<rparr> 7,
            TimerFired 0] init)) =
     [(0, Registered 7), (0, BadgeOverallPerf ''POOR'' 7), (0, Wait 2000),
      (0, BadgeMetric ''lcp'' 3000 7), (0, Wait 2000),
      (0, BadgeMetric ''fid'' 50 7), (0, Wait 2000)] \<and>
   (50 :: rat) \<le> FID_THRESHOLD \<and>
   badgeMetric ''fid'' 50 7 [] = Inr []"
  using badgeMetric_filters_itself
    [of "\<lparr>f_request = \<lparr>passesAllThresholds = ''POOR'', metrics = \<lparr>lcp = 3000, fid = 50, cls = 1 / 20\<rparr>\<rparr>,
           f_tabId = 7, f_animationId = 0, f_pc = Wait_fid\<rparr>"
        "[Message \<lparr>passesAllThresholds = ''POOR'', metrics = \<lparr>lcp = 3000, fid = 50, cls = 1 / 20\<rparr>\<rparr> 7,
          TimerFired 0]" 50 7 "[]"]
  by (simp add: init_def animateBadges_def after_wait_def emit_def suspend_def Let_def
      FID_THRESHOLD_def delay_def badgeMetric_def currentTab_of_def)


text \<open>
  C8, as claimed, fails for two of its three examples: \<open>badgeMetric\<close> sets no text for
  \<open>lcp\<close> 2500 nor for \<open>fid\<close> 99.999, since neither value is above its threshold.
\<close>

theorem passing_value_sets_no_text:
  "badgeMetric ''lcp'' 2500 7 [] = Inr [] \<and>
   badgeMetric ''fid'' (to_double (99999 / 1000)) 7 [] = Inr []"
  by code_simp

text \<open>
  C8, amended. \<open>toFixed(2)\<close> rounds to the nearest hundredth: below \<open>10^21\<close> its text is
  the integer part and the two last digits of \<open>n = \<lfloor>100 x + 1/2\<rfloor>\<close>, and \<open>n / 100\<close> is
  within \<open>1/200\<close> of \<open>x\<close>. It gives 2.50 for 2500 / 1000, 0.12 for 0.1234 and 100.00 for
  99.999. \<open>badgeMetric\<close> formats only a value above the threshold: \<open>cls\<close> 0.1234 sets
  the text 0.12, \<open>lcp\<close> 2500 and \<open>fid\<close> 99.999 set nothing, \<open>lcp\<close> 2506 sets 2.51 and
  \<open>fid\<close> 100.999 sets 101.00.
\<close>

theorem badge_text_rounds:
  "(0 \<le> x \<and> x < 10 ^ 21 \<longrightarrow>
      toFixed x 2 =
        Str (digits (\<lfloor>x * 100 + 1 / 2\<rfloor> div 100) @ ''.'' @
             [''0123456789'' ! nat (\<lfloor>x * 100 + 1 / 2\<rfloor> div 10 mod 10),
              ''0123456789'' ! nat (\<lfloor>x * 100 + 1 / 2\<rfloor> mod 10)]) \<and>
      \<bar>of_int \<lfloor>x * 100 + 1 / 2\<rfloor> / 100 - x\<bar> \<le> 1 / 200) \<and>
   toFixed (fdiv 2500 1000) 2 = Str ''2.50'' \<and>
   toFixed (to_double (1234 / 10000)) 2 = Str ''0.12'' \<and>
   toFixed (to_double (99999 / 1000)) 2 = Str ''100.00'' \<and>
   badgeMetric ''cls'' (to_double (1234 / 10000)) 7 [] =
     Inr [SetIcon ''../../icons/slow128w-cls.png'' 7, SetBadgeBackgroundColor ''#000'' 7,
          SetBadgeText (Str ''0.12'') 7] \<and>
   badgeMetric ''lcp'' 2500 7 [] = Inr [] \<and>
   badgeMetric ''fid'' (to_double (99999 / 1000)) 7 [] = Inr [] \<and>
   badgeMetric ''lcp'' 2506 7 [] =
     Inr [SetIcon ''../../icons/slow128w-lcp.png'' 7, SetBadgeBackgroundColor ''#000'' 7,
          SetBadgeText (Str ''2.51'') 7] \<and>
   badgeMetric ''fid'' (to_double (100999 / 1000)) 7 [] =
     Inr [SetIcon ''../../icons/slow128w-fid.png'' 7, SetBadgeBackgroundColor ''#000'' 7,
          SetBadgeText (Str ''101.00'') 7]"
proof -
  have "toFixed (fdiv 2500 1000) 2 = Str ''2.50''"
    "toFixed (to_double (1234 / 10000)) 2 = Str ''0.12''"
    "toFixed (to_double (99999 / 1000)) 2 = Str ''100.00''"
    "badgeMetric ''cls'' (to_double (1234 / 10000)) 7 [] =
     Inr [SetIcon ''../../icons/slow128w-cls.png'' 7, SetBadgeBackgroundColor ''#000'' 7,
          SetBadgeText (Str ''0.12'') 7]"
    "badgeMetric ''lcp'' 2500 7 [] = Inr []"
    "badgeMetric ''fid'' (to_double (99999 / 1000)) 7 [] = Inr []"
    "badgeMetric ''lcp'' 2506 7 [] =
     Inr [SetIcon ''../../icons/slow128w-lcp.png'' 7, SetBadgeBackgroundColor ''#000'' 7,
          SetBadgeText (Str ''2.51'') 7]"
    "badgeMetric ''fid'' (to_double (100999 / 1000)) 7 [] =
     Inr [SetIcon ''../../icons/slow128w-fid.png'' 7, SetBadgeBackgroundColor ''#000'' 7,
          SetBadgeText (Str ''101.00'') 7]"
    by code_simp+
  then show ?thesis
    using toFixed_2 [of x] nearest_hundredth [of x] by blast
qed

theorem badge_text_rounds_witness:
  "0 \<le> to_double (99999 / 1000) \<and> to_double (99999 / 1000) < 10 ^ 21 \<and>
   \<lfloor>to_double (99999 / 1000) * 100 + 1 / 2\<rfloor> = 10000 \<and>
   toFixed (to_double (99999 / 1000)) 2 = Str ''100.00''"
proof -
  have e: "0 \<le> to_double (99999 / 1000)" "to_double (99999 / 1000) < 10 ^ 21"
    "\<lfloor>to_double (99999 / 1000) * 100 + 1 / 2\<rfloor> = 10000"
    by code_simp+
  have d: "digits 100 = ''100''" by code_simp
  from badge_text_rounds [of "to_double (99999 / 1000)"] e(1,2)
  have "toFixed (to_double (99999 / 1000)) 2 =
        Str (digits (\<lfloor>to_double (99999 / 1000) * 100 + 1 / 2\<rfloor> div 100) @ ''.'' @
             [''0123456789'' ! nat (\<lfloor>to_double (99999 / 1000) * 100 + 1 / 2\<rfloor> div 10 mod 10),
              ''0123456789'' ! nat (\<lfloor>to_double (99999 / 1000) * 100 + 1 / 2\<rfloor> mod 10)])"
    by blast
  then have "toFixed (to_double (99999 / 1000)) 2 = Str ''100.00''"
    unfolding e(3) by (simp add: d)
  with e show ?thesis by blast
qed

text \<open>
  C10. On \<open>GOOD\<close> the callback of \<open>badgeOverallPerf\<close> makes one call, \<open>setIcon\<close>: the badge
  text and the badge background colour of every tab stay as they were. Every other
  category (\<open>POOR\<close> and the default branch) clears the badge text of the tab. So the text
  that a failing \<open>lcp\<close> left on the badge is still there after a \<open>GOOD\<close> rendering.
\<close>

theorem good_verdict_keeps_badge_text:
  "badgeOverallPerf ''GOOD'' tabid tabs =
     (case currentTab_of tabid tabs of
        Inl e \<Rightarrow> Inl e
      | Inr t \<Rightarrow> Inr [SetIcon ''../../icons/fast128w.png'' t]) \<and>
   badgeText (render (badgeOverallPerf ''GOOD'' tabid tabs) st t') = badgeText (st t') \<and>
   badgeBackgroundColor (render (badgeOverallPerf ''GOOD'' tabid tabs) st t') =
     badgeBackgroundColor (st t') \<and>
   (currentTab_of tabid tabs = Inr t \<longrightarrow>
      icon (render (badgeOverallPerf ''GOOD'' tabid tabs) st t) = ''../../icons/fast128w.png'' \<and>
      (c \<noteq> ''GOOD'' \<longrightarrow> badgeText (render (badgeOverallPerf c tabid tabs) st t) = Str []) \<and>
      (2500 < v \<longrightarrow>
         badgeText (render (badgeOverallPerf ''GOOD'' tabid tabs)
                      (render (badgeMetric ''lcp'' v tabid tabs) st) t) =
           toFixed (fdiv v 1000) 2))"
  by (auto simp: badgeOverallPerf_def badgeMetric_def render_def Let_def LCP_THRESHOLD_def
      split: sum.splits)

theorem good_verdict_keeps_badge_text_witness:
  "currentTab_of 7 [] = Inr 7 \<and> ''POOR'' \<noteq> ''GOOD'' \<and> (2500 :: rat) < 3000 \<and>
   badgeText (render (badgeOverallPerf ''GOOD'' 7 [])
               (render (badgeMetric ''lcp'' 3000 7 [])
                 (\<lambda>t. \<lparr>icon = ''../../icons/default128w.png'', badgeBackgroundColor = [],
                        badgeText = Str []\<rparr>)) 7) = Str ''3.00'' \<and>
   badgeText (render (badgeOverallPerf ''POOR'' 7 [])
               (render (badgeMetric ''lcp'' 3000 7 [])
                 (\<lambda>t. \<lparr>icon = ''../../icons/default128w.png'', badgeBackgroundColor = [],
                        badgeText = Str []\<rparr>)) 7) = Str []"
proof -
  have e: "toFixed (fdiv 3000 1000) 2 = Str ''3.00''" by code_simp
  have t: "currentTab_of 7 [] = Inr 7" by (simp add: currentTab_of_def)
  show ?thesis
    using good_verdict_keeps_badge_text
      [of 7 "[]" "\<lambda>t. \<lparr>icon = ''../../icons/default128w.png'', badgeBackgroundColor = [],
                        badgeText = Str []\<rparr>" 7 7 "''POOR''" 3000] e t
    by (simp add: badgeOverallPerf_def badgeMetric_def render_def LCP_THRESHOLD_def)
qed

end
